theory Spec2Isabelle
  imports Complex_Main "HOL-Library.Product_Lexorder"
begin

section \<open>JavaScript values\<close>

text \<open>
  The ledger is written in TypeScript. A JavaScript number is a double; the model keeps
  the finite ones as the real number they denote and adds the three special values, so
  that comparisons, \<open>Number.isInteger\<close> and truthiness are exact; the sign of zero is
  not kept. The arithmetic of doubles rounds, and the model does not compute it on these
  reals: see the section on the balance. Strings are lists of code units below 256.
\<close>

datatype jsnum = Finite real | NaN | PosInf | NegInf

datatype jsval =
    JUndefined
  | JNull
  | JBool bool
  | JNum jsnum
  | JStr string
  | JDate int
  | JObjectId nat
  | JArr "jsval list"
  | JObj "(string \<times> jsval) list"

datatype jstype = TUndefined | TObject | TBoolean | TNumber | TString

fun typeof :: "jsval \<Rightarrow> jstype" where
  "typeof JUndefined = TUndefined"
| "typeof (JBool b) = TBoolean"
| "typeof (JNum n) = TNumber"
| "typeof (JStr s) = TString"
| "typeof v = TObject"

text \<open>\<open>if (v)\<close>: the values that count as false are \<open>undefined\<close>, \<open>null\<close>, \<open>false\<close>,
  \<open>0\<close>, \<open>NaN\<close> and the empty string.\<close>

fun num_truthy :: "jsnum \<Rightarrow> bool" where
  "num_truthy (Finite r) = (r \<noteq> 0)"
| "num_truthy NaN = False"
| "num_truthy PosInf = True"
| "num_truthy NegInf = True"

fun truthy :: "jsval \<Rightarrow> bool" where
  "truthy JUndefined = False"
| "truthy JNull = False"
| "truthy (JBool b) = b"
| "truthy (JNum n) = num_truthy n"
| "truthy (JStr s) = (s \<noteq> [])"
| "truthy v = True"

text \<open>\<open>v != null\<close> (loose inequality) is false for \<open>null\<close> and \<open>undefined\<close> only.\<close>

fun not_nullish :: "jsval \<Rightarrow> bool" where
  "not_nullish JUndefined = False"
| "not_nullish JNull = False"
| "not_nullish v = True"

fun isInteger :: "jsnum \<Rightarrow> bool" where
  "isInteger (Finite r) = (of_int \<lfloor>r\<rfloor> = r)"
| "isInteger n = False"

text \<open>\<open>n < 0\<close> on numbers: every comparison with \<open>NaN\<close> is false.\<close>

fun num_negative :: "jsnum \<Rightarrow> bool" where
  "num_negative (Finite r) = (r < 0)"
| "num_negative NegInf = True"
| "num_negative n = False"

text \<open>\<open>String.prototype.trim\<close> removes white space at both ends; below 256 the white
  space and line terminator code units are 9 to 13, 32 and 160.\<close>

definition is_whitespace :: "char \<Rightarrow> bool" where
  "is_whitespace c = (of_char c \<in> {9, 10, 11, 12, 13, 32, 160 :: nat})"

definition trim :: "string \<Rightarrow> string" where
  "trim s = rev (dropWhile is_whitespace (rev (dropWhile is_whitespace s)))"

section \<open>The book and its constructor\<close>

datatype error =
    BookConstructorError string
  | JournalNotFoundError
  | RangeError
  | TypeError
  | HelperError string
  | StoreError
  | Unmodelled

record Book =
  name :: string
  precision :: jsnum
  maxAccountPath :: jsnum
  balanceSnapshotSec :: jsnum

text \<open>The options object of the constructor; an omitted property reads as \<open>undefined\<close>.\<close>

record book_options =
  opt_precision :: jsval
  opt_maxAccountPath :: jsval
  opt_balanceSnapshotSec :: jsval

definition no_options :: book_options where
  "no_options = \<lparr>opt_precision = JUndefined, opt_maxAccountPath = JUndefined,
     opt_balanceSnapshotSec = JUndefined\<rparr>"

definition or_default :: "jsval \<Rightarrow> real \<Rightarrow> jsval" where
  "or_default v d = (if not_nullish v then v else JNum (Finite d))"

definition invalid_name :: "jsval \<Rightarrow> bool" where
  "invalid_name v =
     (typeof v \<noteq> TString \<or> (case v of JStr s \<Rightarrow> length (trim s) = 0 | _ \<Rightarrow> False))"

definition invalid_count :: "jsval \<Rightarrow> bool" where
  "invalid_count v =
     (typeof v \<noteq> TNumber \<or>
      (case v of JNum n \<Rightarrow> \<not> isInteger n \<or> num_negative n | _ \<Rightarrow> False))"

definition invalid_snapshot_sec :: "jsval \<Rightarrow> bool" where
  "invalid_snapshot_sec v =
     (typeof v \<noteq> TNumber \<or> (case v of JNum n \<Rightarrow> num_negative n | _ \<Rightarrow> False))"

fun the_str :: "jsval \<Rightarrow> string" where
  "the_str (JStr s) = s"
| "the_str v = []"

fun the_num :: "jsval \<Rightarrow> jsnum" where
  "the_num (JNum n) = n"
| "the_num v = NaN"

text \<open>The constructor assigns the four fields and then checks them in the order name,
  precision, maxAccountPath, balanceSnapshotSec; the first failing check throws. The
  accessors \<open>the_str\<close> and \<open>the_num\<close> are only reached behind the matching
  \<open>typeof\<close> check.\<close>

definition Book_constructor :: "jsval \<Rightarrow> book_options \<Rightarrow> error + Book" where
  "Book_constructor nm options =
     (let p = or_default (opt_precision options) 8;
          m = or_default (opt_maxAccountPath options) 3;
          b = or_default (opt_balanceSnapshotSec options) (24 * 60 * 60)
      in if invalid_name nm then
           Inl (BookConstructorError ''Invalid value for name provided.'')
         else if invalid_count p then
           Inl (BookConstructorError ''Invalid value for precision provided.'')
         else if invalid_count m then
           Inl (BookConstructorError ''Invalid value for maxAccountPath provided.'')
         else if invalid_snapshot_sec b then
           Inl (BookConstructorError ''Invalid value for balanceSnapshotSec provided.'')
         else Inr \<lparr>name = the_str nm, precision = the_num p, maxAccountPath = the_num m,
                    balanceSnapshotSec = the_num b\<rparr>)"

text \<open>The domains the specification names for the constructor's arguments.\<close>

definition nonneg_integer :: "jsval \<Rightarrow> bool" where
  "nonneg_integer v = (\<exists>k::nat. v = JNum (Finite (of_nat k)))"

definition omitted_or :: "(jsval \<Rightarrow> bool) \<Rightarrow> jsval \<Rightarrow> bool" where
  "omitted_or P v = (v = JUndefined \<or> v = JNull \<or> P v)"

definition field_or_default :: "jsval \<Rightarrow> real \<Rightarrow> jsnum" where
  "field_or_default v d = (case v of JNum n \<Rightarrow> n | _ \<Rightarrow> Finite d)"

definition is_error :: "error + 'a \<Rightarrow> bool" where
  "is_error r = (case r of Inl (BookConstructorError msg) \<Rightarrow> True | _ \<Rightarrow> False)"

section \<open>Objects\<close>

text \<open>
  A plain object is the list of its own enumerable properties, in the order in which
  \<open>Object.entries\<close> lists them; no key occurs twice. Reading an absent property gives
  \<open>undefined\<close>; writing keeps the place of a property that exists and appends a new
  one; \<open>delete\<close> removes it.
\<close>

type_synonym jsobj = "(string \<times> jsval) list"

definition has_prop :: "string \<Rightarrow> jsobj \<Rightarrow> bool" where
  "has_prop k obj = (k \<in> fst ` set obj)"

definition get_prop :: "string \<Rightarrow> jsobj \<Rightarrow> jsval" where
  "get_prop k obj = (case map_of obj k of None \<Rightarrow> JUndefined | Some v \<Rightarrow> v)"

fun set_prop :: "string \<Rightarrow> jsval \<Rightarrow> jsobj \<Rightarrow> jsobj" where
  "set_prop k v [] = [(k, v)]"
| "set_prop k v (p # ps) = (if fst p = k then (k, v) # ps else p # set_prop k v ps)"

definition delete_prop :: "string \<Rightarrow> jsobj \<Rightarrow> jsobj" where
  "delete_prop k obj = filter (\<lambda>p. fst p \<noteq> k) obj"

text \<open>\<open>typeof v === "object"\<close> values other than \<open>null\<close>.\<close>

fun is_object :: "jsval \<Rightarrow> bool" where
  "is_object (JDate t) = True"
| "is_object (JObjectId i) = True"
| "is_object (JArr xs) = True"
| "is_object (JObj ps) = True"
| "is_object v = False"

text \<open>
  The assignment \<open>obj[key] = value\<close> on a plain object. The key \<open>__proto__\<close> is the
  accessor of \<open>Object.prototype\<close>: assigning a primitive to it does nothing, and
  assigning an object or \<open>null\<close> replaces the prototype of \<open>obj\<close>, which this value
  type does not represent: the model stops there with \<open>Unmodelled\<close>.
\<close>

definition assign_prop :: "string \<Rightarrow> jsval \<Rightarrow> jsobj \<Rightarrow> error + jsobj" where
  "assign_prop k v obj =
     (if k = ''__proto__''
      then (if is_object v \<or> v = JNull then Inl Unmodelled else Inr obj)
      else Inr (set_prop k v obj))"

section \<open>The query compiler\<close>

text \<open>
  \<open>parseQuery\<close> calls helpers that belong to other modules of the repository and to
  the driver of the store. They are parameters of the model:
  \<^item> \<open>isPrototypeAttribute\<close>, \<open>isValidTransactionKey\<close> and
    \<open>isTransactionObjectIdKey\<close>, predicates on keys;
  \<^item> \<open>parseAccountField\<close>, from the account and \<open>maxAccountPath\<close> to the fields it
    contributes, or an error;
  \<^item> \<open>parseDateField\<close>, from a date input to a timestamp, or an error;
  \<^item> \<open>newObjectId\<close>, the constructor \<open>new Types.ObjectId(string)\<close>, which throws on
    a string that is no identifier.
\<close>

record helpers =
  isPrototypeAttribute :: "string \<Rightarrow> bool"
  isValidTransactionKey :: "string \<Rightarrow> bool"
  isTransactionObjectIdKey :: "string \<Rightarrow> bool"
  parseAccountField :: "jsval \<Rightarrow> jsnum \<Rightarrow> error + jsobj"
  parseDateField :: "jsval \<Rightarrow> error + jsval"
  newObjectId :: "string \<Rightarrow> error + nat"

text \<open>\<open>const { account, start_date, end_date, ...extra } = query\<close>: the rest
  properties, in the order of the query.\<close>

definition extra_of :: "jsobj \<Rightarrow> jsobj" where
  "extra_of query =
     filter (\<lambda>p. fst p \<notin> {''account'', ''start_date'', ''end_date''}) query"

text \<open>\<open>{ book: book.name, ...parseAccountField(account, book.maxAccountPath) }\<close>: the
  spread defines the fields one by one, a later one replacing an earlier one of the
  same key.\<close>

definition spread :: "jsobj \<Rightarrow> jsobj \<Rightarrow> jsobj" where
  "spread ps obj = fold (\<lambda>p. set_prop (fst p) (snd p)) ps obj"

text \<open>Lines 36 to 45: the bounds on \<open>datetime\<close>. Each date is read only when it is
  truthy, the start date first.\<close>

definition date_bound :: "helpers \<Rightarrow> string \<Rightarrow> jsval \<Rightarrow> error + jsobj" where
  "date_bound h op d =
     (if truthy d
      then (case parseDateField h d of Inl e \<Rightarrow> Inl e | Inr t \<Rightarrow> Inr [(op, t)])
      else Inr [])"

definition date_range :: "helpers \<Rightarrow> jsval \<Rightarrow> jsval \<Rightarrow> jsobj \<Rightarrow> error + jsobj" where
  "date_range h start_date end_date filterQuery =
     (if truthy start_date \<or> truthy end_date
      then (case date_bound h ''$gte'' start_date of
              Inl e \<Rightarrow> Inl e
            | Inr gte \<Rightarrow>
                (case date_bound h ''$lte'' end_date of
                   Inl e \<Rightarrow> Inl e
                 | Inr lte \<Rightarrow> Inr (set_prop ''datetime'' (JObj (gte @ lte)) filterQuery)))
      else Inr filterQuery)"

text \<open>Lines 50 to 53: a string under an identifier column becomes an identifier.\<close>

definition coerce :: "helpers \<Rightarrow> string \<Rightarrow> jsval \<Rightarrow> error + jsval" where
  "coerce h key v =
     (case v of
        JStr s \<Rightarrow>
          if isTransactionObjectIdKey h key
          then (case newObjectId h s of Inl e \<Rightarrow> Inl e | Inr i \<Rightarrow> Inr (JObjectId i))
          else Inr v
      | _ \<Rightarrow> Inr v)"

text \<open>
  Lines 58 and 59: \<open>if (!filterQuery.meta) filterQuery.meta = {}\<close> and then
  \<open>filterQuery.meta[key] = newValue\<close>. A truthy \<open>meta\<close> that is a string, a number or
  \<open>true\<close> makes the assignment throw a TypeError (the module is strict code). A
  \<open>meta\<close> that is a Date, an identifier or an array would receive the property itself,
  which this value type does not represent: \<open>Unmodelled\<close>.
\<close>

definition meta_assign :: "string \<Rightarrow> jsval \<Rightarrow> jsobj \<Rightarrow> error + jsobj" where
  "meta_assign key v filterQuery =
     (let f = (if \<not> truthy (get_prop ''meta'' filterQuery)
               then set_prop ''meta'' (JObj []) filterQuery else filterQuery)
      in case get_prop ''meta'' f of
           JObj m \<Rightarrow>
             (case assign_prop key v m of
                Inl e \<Rightarrow> Inl e
              | Inr m' \<Rightarrow> Inr (set_prop ''meta'' (JObj m') f))
         | JBool b \<Rightarrow> Inl TypeError
         | JNum n \<Rightarrow> Inl TypeError
         | JStr s \<Rightarrow> Inl TypeError
         | _ \<Rightarrow> Inl Unmodelled)"

text \<open>The body of the loop over \<open>Object.entries(extra)\<close>, lines 47 to 61.\<close>

definition extra_step :: "helpers \<Rightarrow> string \<times> jsval \<Rightarrow> jsobj \<Rightarrow> error + jsobj" where
  "extra_step h p filterQuery =
     (let key = fst p; v = snd p in
      if isPrototypeAttribute h key then Inr filterQuery
      else (case coerce h key v of
              Inl e \<Rightarrow> Inl e
            | Inr newValue \<Rightarrow>
                if isValidTransactionKey h key then assign_prop key newValue filterQuery
                else meta_assign key newValue filterQuery))"

fun extra_loop :: "helpers \<Rightarrow> jsobj \<Rightarrow> jsobj \<Rightarrow> error + jsobj" where
  "extra_loop h [] filterQuery = Inr filterQuery"
| "extra_loop h (p # ps) filterQuery =
     (case extra_step h p filterQuery of
        Inl e \<Rightarrow> Inl e
      | Inr f \<Rightarrow> extra_loop h ps f)"

definition parseQuery :: "helpers \<Rightarrow> jsobj \<Rightarrow> Book \<Rightarrow> error + jsobj" where
  "parseQuery h query book =
     (case parseAccountField h (get_prop ''account'' query) (maxAccountPath book) of
        Inl e \<Rightarrow> Inl e
      | Inr account_fields \<Rightarrow>
          (case date_range h (get_prop ''start_date'' query) (get_prop ''end_date'' query)
                  (spread account_fields [(''book'', JStr (name book))]) of
             Inl e \<Rightarrow> Inl e
           | Inr filterQuery \<Rightarrow> extra_loop h (extra_of query) filterQuery))"

text \<open>The fields nested under \<open>meta\<close> in a filter or a query.\<close>

fun fields_of :: "jsval \<Rightarrow> jsobj" where
  "fields_of (JObj m) = m"
| "fields_of v = []"

definition meta_fields :: "jsobj \<Rightarrow> jsobj" where
  "meta_fields f = fields_of (get_prop ''meta'' f)"

fun is_str :: "jsval \<Rightarrow> bool" where
  "is_str (JStr s) = True"
| "is_str v = False"

text \<open>What the specification says of the fields \<open>parseAccountField\<close> returns: an
  equality on \<open>account_path\<close>, a membership in \<open>accounts\<close>, or a disjunction.\<close>

definition account_fields_only :: "helpers \<Rightarrow> bool" where
  "account_fields_only h =
     (\<forall>a m obj. parseAccountField h a m = Inr obj \<longrightarrow>
        fst ` set obj \<subseteq> {''account_path'', ''accounts'', ''$or''})"

text \<open>The \<open>meta\<close> of a filter is absent or a plain object.\<close>

definition meta_plain :: "jsobj \<Rightarrow> bool" where
  "meta_plain f = (case get_prop ''meta'' f of JUndefined \<Rightarrow> True | JObj m \<Rightarrow> True | _ \<Rightarrow> False)"


text \<open>The helper calls that a compilation makes all succeed.\<close>

definition helpers_succeed :: "helpers \<Rightarrow> jsobj \<Rightarrow> Book \<Rightarrow> bool" where
  "helpers_succeed h q book =
     ((\<exists>acct. parseAccountField h (get_prop ''account'' q) (maxAccountPath book) = Inr acct)
      \<and> (truthy (get_prop ''start_date'' q) \<longrightarrow>
           (\<exists>t. parseDateField h (get_prop ''start_date'' q) = Inr t))
      \<and> (truthy (get_prop ''end_date'' q) \<longrightarrow>
           (\<exists>t. parseDateField h (get_prop ''end_date'' q) = Inr t))
      \<and> (\<forall>p \<in> set (extra_of q). \<not> isPrototypeAttribute h (fst p) \<longrightarrow>
           (\<exists>nv. coerce h (fst p) (snd p) = Inr nv)))"

subsection \<open>The helpers as the specification describes them\<close>

text \<open>Modelled from the spec: \<open>helper/isPrototypeAttribute\<close> is not among the sources.
  Section 4.1: the guard rejects \<open>__proto__\<close>, \<open>constructor\<close> and \<open>prototype\<close>.\<close>

definition spec_isPrototypeAttribute :: "string \<Rightarrow> bool" where
  "spec_isPrototypeAttribute k = (k \<in> {''__proto__'', ''constructor'', ''prototype''})"

text \<open>Modelled from the spec: the schema of \<open>models/transaction\<close> is not among the
  sources. Section 3 lists the attributes of a transaction; the identifier columns are
  its own identifier and the two references to journals.\<close>

definition transaction_columns :: "string list" where
  "transaction_columns =
     [''_id'', ''book'', ''_journal'', ''datetime'', ''timestamp'', ''account_path'',
      ''accounts'', ''debit'', ''credit'', ''meta'', ''voided'', ''void_reason'',
      ''_original_journal'']"

definition spec_isValidTransactionKey :: "string \<Rightarrow> bool" where
  "spec_isValidTransactionKey k = (k \<in> set transaction_columns)"

definition spec_isTransactionObjectIdKey :: "string \<Rightarrow> bool" where
  "spec_isTransactionObjectIdKey k = (k \<in> {''_id'', ''_journal'', ''_original_journal''})"

text \<open>Modelled from the spec: \<open>helper/parseAccountField\<close> is not among the sources.
  Section 4.1: each account is split on the colon; when every account has exactly
  \<open>maxAccountPath\<close> segments the filter is an equality on \<open>account_path\<close>, otherwise a
  membership in \<open>accounts\<close>; several accounts become a disjunction; another shape of
  \<open>account\<close> fails the caller. A query without account gets no account field.\<close>

fun split_on :: "char \<Rightarrow> string \<Rightarrow> string list" where
  "split_on c [] = [[]]"
| "split_on c (x # xs) =
     (case split_on c xs of
        [] \<Rightarrow> [[x]]
      | r # rs \<Rightarrow> if x = c then [] # r # rs else (x # r) # rs)"

definition account_field :: "jsnum \<Rightarrow> string list \<Rightarrow> string" where
  "account_field m accounts =
     (if list_all (\<lambda>a. Finite (real (length (split_on CHR '':'' a))) = m) accounts
      then ''account_path'' else ''accounts'')"

fun spec_parseAccountField :: "jsval \<Rightarrow> jsnum \<Rightarrow> error + jsobj" where
  "spec_parseAccountField JUndefined m = Inr []"
| "spec_parseAccountField (JStr a) m = Inr [(account_field m [a], JStr a)]"
| "spec_parseAccountField (JArr xs) m =
     (if list_all is_str xs
      then Inr [(''$or'', JArr (map (\<lambda>x. JObj [(account_field m (map the_str xs), x)]) xs))]
      else Inl (HelperError ''account''))"
| "spec_parseAccountField v m = Inl (HelperError ''account'')"

text \<open>Modelled from the spec: \<open>helper/parseDateField\<close> is not among the sources.
  Section 4.1: a date is a native timestamp, a date string that parses, or a number of
  milliseconds since the epoch; an invalid date string fails the caller. The parser of
  date strings of the runtime is the parameter \<open>date_parse\<close>.\<close>

fun spec_parseDateField :: "(string \<Rightarrow> int option) \<Rightarrow> jsval \<Rightarrow> error + jsval" where
  "spec_parseDateField date_parse (JDate t) = Inr (JDate t)"
| "spec_parseDateField date_parse (JNum (Finite r)) =
     (if of_int \<lfloor>r\<rfloor> = r then Inr (JDate \<lfloor>r\<rfloor>) else Inl (HelperError ''date''))"
| "spec_parseDateField date_parse (JStr s) =
     (case date_parse s of None \<Rightarrow> Inl (HelperError ''date'') | Some t \<Rightarrow> Inr (JDate t))"
| "spec_parseDateField date_parse v = Inl (HelperError ''date'')"

text \<open>The identifier constructor of the driver on the strings it certainly accepts:
  24 hexadecimal digits, read as a number.\<close>

definition hex_digit :: "char \<Rightarrow> nat option" where
  "hex_digit c =
     (let n = of_char c in
      if 48 \<le> n \<and> n \<le> 57 then Some (n - 48)
      else if 97 \<le> n \<and> n \<le> 102 then Some (n - 87)
      else if 65 \<le> n \<and> n \<le> 70 then Some (n - 55)
      else None)"

fun hex_value :: "nat \<Rightarrow> string \<Rightarrow> nat option" where
  "hex_value acc [] = Some acc"
| "hex_value acc (c # cs) =
     (case hex_digit c of None \<Rightarrow> None | Some d \<Rightarrow> hex_value (16 * acc + d) cs)"

definition hex_objectId :: "string \<Rightarrow> error + nat" where
  "hex_objectId s =
     (if length s = 24
      then (case hex_value 0 s of None \<Rightarrow> Inl (HelperError ''ObjectId'') | Some i \<Rightarrow> Inr i)
      else Inl (HelperError ''ObjectId''))"

definition spec_helpers :: "(string \<Rightarrow> int option) \<Rightarrow> helpers" where
  "spec_helpers date_parse =
     \<lparr>isPrototypeAttribute = spec_isPrototypeAttribute,
      isValidTransactionKey = spec_isValidTransactionKey,
      isTransactionObjectIdKey = spec_isTransactionObjectIdKey,
      parseAccountField = spec_parseAccountField,
      parseDateField = spec_parseDateField date_parse,
      newObjectId = hex_objectId\<rparr>"

section \<open>The transactions of the store\<close>

text \<open>
  A transaction document: its identifier, the two dates as milliseconds since the epoch,
  the two amounts (numbers), and its other fields. Which documents a filter selects is decided by
  the store; the model takes it as the parameter \<open>matches\<close>.
\<close>

record transaction =
  tx_id :: nat
  tx_datetime :: int
  tx_timestamp :: int
  tx_debit :: jsnum
  tx_credit :: jsnum
  tx_fields :: jsobj

type_synonym matcher = "jsobj \<Rightarrow> transaction \<Rightarrow> bool"

section \<open>The ledger\<close>

text \<open>Lines 143 to 148 of Book.ts: \<open>(query.page ? query.page - 1 : 0) * query.perPage\<close>.
  The arithmetic is modelled on finite numbers; a page or a perPage that is truthy and
  no finite number would be converted by JavaScript, which is \<open>Unmodelled\<close>.\<close>

definition page_index :: "jsval \<Rightarrow> error + real" where
  "page_index page =
     (if truthy page
      then (case page of JNum (Finite p) \<Rightarrow> Inr (p - 1) | _ \<Rightarrow> Inl Unmodelled)
      else Inr 0)"

text \<open>The pagination: \<open>None\<close> when \<open>perPage\<close> is falsy (\<open>skip\<close> stays undefined),
  otherwise \<open>skip\<close> and \<open>limit\<close>.\<close>

definition pagination :: "jsobj \<Rightarrow> error + (real \<times> real) option" where
  "pagination query =
     (if truthy (get_prop ''perPage'' query)
      then (case get_prop ''perPage'' query of
              JNum (Finite perPage) \<Rightarrow>
                (case page_index (get_prop ''page'' query) of
                   Inl e \<Rightarrow> Inl e
                 | Inr i \<Rightarrow> Inr (Some (i * perPage, perPage)))
            | _ \<Rightarrow> Inl Unmodelled)
      else Inr None)"

text \<open>The query object after the call: \<open>delete query.perPage; delete query.page\<close>
  inside the same \<open>if\<close>.\<close>

definition query_after_ledger :: "jsobj \<Rightarrow> jsobj" where
  "query_after_ledger query =
     (if truthy (get_prop ''perPage'' query)
      then delete_prop ''page'' (delete_prop ''perPage'' query)
      else query)"

text \<open>\<open>find(filter).sort({datetime: -1, timestamp: -1})\<close>: the selected documents,
  latest first; documents with equal dates keep the order of the collection.\<close>

definition find_sorted :: "matcher \<Rightarrow> jsobj \<Rightarrow> transaction list \<Rightarrow> transaction list" where
  "find_sorted matches f txs =
     sort_key (\<lambda>t. (- tx_datetime t, - tx_timestamp t)) (filter (matches f) txs)"

text \<open>\<open>q.skip(skip).limit(limit)\<close> at the store: a negative skip is refused; a
  non-negative whole skip drops that many documents and a positive whole limit keeps at
  most that many; other values are \<open>Unmodelled\<close>.\<close>

definition skip_limit :: "real \<Rightarrow> real \<Rightarrow> 'a list \<Rightarrow> error + 'a list" where
  "skip_limit skip limit xs =
     (if skip < 0 then Inl StoreError
      else if of_int \<lfloor>skip\<rfloor> = skip \<and> of_int \<lfloor>limit\<rfloor> = limit \<and> 0 < limit
      then Inr (take (nat \<lfloor>limit\<rfloor>) (drop (nat \<lfloor>skip\<rfloor>) xs))
      else Inl Unmodelled)"

definition countDocuments :: "matcher \<Rightarrow> jsobj \<Rightarrow> transaction list \<Rightarrow> nat" where
  "countDocuments matches f txs = length (filter (matches f) txs)"

record ledger_result =
  results :: "transaction list"
  total :: nat

text \<open>
  \<open>Book.ledger\<close> returns the query object as the call leaves it and the outcome. The
  count is issued only when \<open>skip\<close> is defined; \<open>total\<close> is
  \<open>(await count) || results.length\<close>. Populating references replaces identifiers by
  the documents they refer to and changes neither the selection nor the order of the
  results; it is not part of the model.
\<close>

definition ledger_total :: "nat \<Rightarrow> transaction list \<Rightarrow> nat" where
  "ledger_total count rs = (if count = 0 then length rs else count)"

definition Book_ledger ::
  "helpers \<Rightarrow> matcher \<Rightarrow> Book \<Rightarrow> jsobj \<Rightarrow> transaction list
     \<Rightarrow> jsobj \<times> (error + ledger_result)" where
  "Book_ledger h matches book query txs =
     (let query' = query_after_ledger query in
      (query',
       case pagination query of
         Inl e \<Rightarrow> Inl e
       | Inr paging \<Rightarrow>
           (case parseQuery h query' book of
              Inl e \<Rightarrow> Inl e
            | Inr filterQuery \<Rightarrow>
                (case paging of
                   None \<Rightarrow>
                     (let rs = find_sorted matches filterQuery txs
                      in Inr \<lparr>results = rs, total = ledger_total 0 rs\<rparr>)
                 | Some (skip, limit) \<Rightarrow>
                     (case skip_limit skip limit (find_sorted matches filterQuery txs) of
                        Inl e \<Rightarrow> Inl e
                      | Inr rs \<Rightarrow>
                          Inr \<lparr>results = rs,
                               total = ledger_total (countDocuments matches filterQuery txs) rs\<rparr>)))))"

section \<open>The balance\<close>

text \<open>
  The amounts are JavaScript numbers, that is doubles, and an operation on doubles
  returns the double nearest to the exact result. The model does not compute with them:
  the operations on numbers that \<open>Book.balance\<close> and the aggregation of the store perform
  are parameters, the fields of a record:
  \<^item> \<open>js_plus\<close> and \<open>js_times\<close>, the \<open>+\<close> and \<open>*\<close> of JavaScript on numbers;
  \<^item> \<open>store_subtract\<close> and \<open>store_sum\<close>, the \<open>$subtract\<close> of the store on two numbers
    and its accumulator \<open>$sum\<close> on the numbers of a group;
  \<^item> \<open>toFixed_parseFloat\<close>, \<open>parseFloat(x.toFixed(digits))\<close> for digits from 0 to 100.
  The comparison of two numbers rounds nothing and is modelled as it is.
\<close>

record arith =
  js_plus :: "jsnum \<Rightarrow> jsnum \<Rightarrow> jsnum"
  js_times :: "jsnum \<Rightarrow> jsnum \<Rightarrow> jsnum"
  store_subtract :: "jsnum \<Rightarrow> jsnum \<Rightarrow> jsnum"
  store_sum :: "jsnum list \<Rightarrow> jsnum"
  toFixed_parseFloat :: "nat \<Rightarrow> jsnum \<Rightarrow> jsnum"

text \<open>\<open>a > b\<close> on numbers: false when either is \<open>NaN\<close>.\<close>

fun num_greater :: "jsnum \<Rightarrow> jsnum \<Rightarrow> bool" where
  "num_greater (Finite a) (Finite b) = (b < a)"
| "num_greater NaN b = False"
| "num_greater a NaN = False"
| "num_greater PosInf PosInf = False"
| "num_greater PosInf b = True"
| "num_greater a PosInf = False"
| "num_greater NegInf b = False"
| "num_greater a NegInf = True"

record snapshot =
  snap_book :: string
  snap_account :: jsval
  snap_meta :: jsval
  snap_transaction :: nat
  snap_timestamp :: int
  snap_balance :: jsnum
  snap_createdAt :: int

text \<open>The argument of \<open>snapshotBalance\<close>.\<close>

record snapshot_request =
  req_book :: string
  req_account :: jsval
  req_meta :: jsval
  req_transaction :: nat
  req_timestamp :: int
  req_balance :: jsnum
  req_expireInSec :: jsnum

record balance_result =
  balance :: jsnum
  notes' :: nat

text \<open>The result of the \<open>$group\<close> stage, absent when no document matches:
  \<open>balance: {$sum: {$subtract: ["$credit", "$debit"]}}\<close>, \<open>count: {$sum: 1}\<close>, and the
  identifier and timestamp of the last document.\<close>

record aggregated =
  agg_balance :: jsnum
  agg_count :: nat
  agg_lastTransactionId :: nat
  agg_lastTimestamp :: int

definition aggregate :: "arith \<Rightarrow> matcher \<Rightarrow> jsobj \<Rightarrow> transaction list \<Rightarrow> aggregated option" where
  "aggregate a matches f txs =
     (let ms = filter (matches f) txs in
      if ms = [] then None
      else Some \<lparr>agg_balance =
                   store_sum a (map (\<lambda>t. store_subtract a (tx_credit t) (tx_debit t)) ms),
                 agg_count = length ms,
                 agg_lastTransactionId = tx_id (last ms),
                 agg_lastTimestamp = tx_timestamp (last ms)\<rparr>)"

text \<open>\<open>[].concat(query.account).join()\<close> on a string or an array of strings; the
  conversion of other values to strings is \<open>Unmodelled\<close>.\<close>

fun join_with :: "string \<Rightarrow> string list \<Rightarrow> string" where
  "join_with sep [] = []"
| "join_with sep [x] = x"
| "join_with sep (x # y # ys) = x @ sep @ join_with sep (y # ys)"

definition accountForBalanceSnapshot :: "jsval \<Rightarrow> error + jsval" where
  "accountForBalanceSnapshot account =
     (if truthy account
      then (case account of
              JStr a \<Rightarrow> Inr (JStr a)
            | JArr xs \<Rightarrow>
                if list_all is_str xs then Inr (JStr (join_with '','' (map the_str xs)))
                else Inl Unmodelled
            | _ \<Rightarrow> Inl Unmodelled)
      else Inr account)"

text \<open>Line 66: \<open>Date.now() > balanceSnapshot.createdAt.getTime() + this.balanceSnapshotSec
  * 1000\<close>. The two times are whole numbers of milliseconds.\<close>

definition older_than :: "arith \<Rightarrow> int \<Rightarrow> int \<Rightarrow> jsnum \<Rightarrow> bool" where
  "older_than a now created sec =
     num_greater (Finite (real_of_int now))
       (js_plus a (Finite (real_of_int created)) (js_times a sec (Finite 1000)))"

text \<open>
  \<open>x.toFixed(digits)\<close>: the digits are the argument truncated to an integer (0 for
  \<open>NaN\<close>), and a RangeError is thrown outside 0 to 100.
\<close>

fun toFixed_digits :: "jsnum \<Rightarrow> error + nat" where
  "toFixed_digits (Finite r) =
     (let d = (if 0 \<le> r then \<lfloor>r\<rfloor> else \<lceil>r\<rceil>)
      in if 0 \<le> d \<and> d \<le> 100 then Inr (nat d) else Inl RangeError)"
| "toFixed_digits NaN = Inr 0"
| "toFixed_digits n = Inl RangeError"

text \<open>
  Lines 51 to 68: the snapshot is looked up only when \<open>balanceSnapshotSec\<close> is truthy.
  \<open>getBestSnapshot\<close> of \<open>models/balance\<close>, applied to the snapshots of the store, is
  the parameter \<open>best\<close>: it receives the book of the parsed query, the joined account
  and the \<open>meta\<close> of the parsed query.
\<close>

definition lookup_snapshot ::
  "(jsval \<Rightarrow> jsval \<Rightarrow> jsval \<Rightarrow> snapshot option) \<Rightarrow> Book \<Rightarrow> jsobj \<Rightarrow> jsobj
     \<Rightarrow> error + (jsval \<times> snapshot option)" where
  "lookup_snapshot best book query parsedQuery =
     (if num_truthy (balanceSnapshotSec book)
      then (case accountForBalanceSnapshot (get_prop ''account'' query) of
              Inl e \<Rightarrow> Inl e
            | Inr account \<Rightarrow>
                Inr (account,
                     best (get_prop ''book'' parsedQuery) account (get_prop ''meta'' parsedQuery)))
      else Inr (JUndefined, None))"

text \<open>Line 65: \<open>parsedQuery._id = { $gt: balanceSnapshot.transaction }\<close>.\<close>

definition live_filter :: "snapshot option \<Rightarrow> jsobj \<Rightarrow> jsobj" where
  "live_filter balanceSnapshot parsedQuery =
     (case balanceSnapshot of
        None \<Rightarrow> parsedQuery
      | Some s \<Rightarrow> set_prop ''_id'' (JObj [(''$gt'', JObjectId (snap_transaction s))]) parsedQuery)"

text \<open>Lines 53 and 66: a snapshot is wanted unless the one found is recent.\<close>

definition needToDoBalanceSnapshot :: "arith \<Rightarrow> Book \<Rightarrow> int \<Rightarrow> snapshot option \<Rightarrow> bool" where
  "needToDoBalanceSnapshot a book now balanceSnapshot =
     (case balanceSnapshot of
        None \<Rightarrow> True
      | Some s \<Rightarrow> older_than a now (snap_createdAt s) (balanceSnapshotSec book))"

text \<open>Lines 91 to 96: \<open>let balance = 0\<close> and, with a snapshot,
  \<open>balance += balanceSnapshot.balance\<close>.\<close>

definition snapshot_balance :: "arith \<Rightarrow> snapshot option \<Rightarrow> jsnum" where
  "snapshot_balance a balanceSnapshot =
     (case balanceSnapshot of
        None \<Rightarrow> Finite 0
      | Some s \<Rightarrow> js_plus a (Finite 0) (snap_balance s))"

text \<open>
  \<open>Book.balance\<close> returns the balance and the notes, and the request it made to
  \<open>snapshotBalance\<close>, if any. Line 99 is
  \<open>balance += parseFloat(result.balance.toFixed(this.precision))\<close>; the request carries
  \<open>expireInSec: this.balanceSnapshotSec * 2\<close>. The identifier of the last transaction is
  an object and so truthy.
\<close>

definition Book_balance ::
  "arith \<Rightarrow> helpers \<Rightarrow> matcher \<Rightarrow> (jsval \<Rightarrow> jsval \<Rightarrow> jsval \<Rightarrow> snapshot option) \<Rightarrow> Book \<Rightarrow> int
     \<Rightarrow> jsobj \<Rightarrow> transaction list \<Rightarrow> error + balance_result \<times> snapshot_request option" where
  "Book_balance a h matches best book now query txs =
     (case parseQuery h query book of
        Inl e \<Rightarrow> Inl e
      | Inr parsedQuery \<Rightarrow>
          (case lookup_snapshot best book query parsedQuery of
             Inl e \<Rightarrow> Inl e
           | Inr (account, balanceSnapshot) \<Rightarrow>
               (case aggregate a matches (live_filter balanceSnapshot parsedQuery) txs of
                  None \<Rightarrow>
                    Inr (\<lparr>balance = snapshot_balance a balanceSnapshot, notes' = 0\<rparr>, None)
                | Some result \<Rightarrow>
                    (case toFixed_digits (precision book) of
                       Inl e \<Rightarrow> Inl e
                     | Inr d \<Rightarrow>
                         (let b = js_plus a (snapshot_balance a balanceSnapshot)
                                    (toFixed_parseFloat a d (agg_balance result))
                          in Inr (\<lparr>balance = b, notes' = agg_count result\<rparr>,
                                  if needToDoBalanceSnapshot a book now balanceSnapshot
                                  then Some \<lparr>req_book = name book, req_account = account,
                                         req_meta = get_prop ''meta'' (live_filter balanceSnapshot parsedQuery),
                                         req_transaction = agg_lastTransactionId result,
                                         req_timestamp = agg_lastTimestamp result,
                                         req_balance = b,
                                         req_expireInSec =
                                           js_times a (balanceSnapshotSec book) (Finite 2)\<rparr>
                                  else None))))))"

text \<open>Modelled from the spec: \<open>getBestSnapshot\<close> of \<open>models/balance\<close> is not among the
  sources. Section 4.3: among the snapshots with the same key (book, account, meta), the
  one with the largest transaction identifier.\<close>

fun newest :: "snapshot list \<Rightarrow> snapshot option" where
  "newest [] = None"
| "newest (s # ss) =
     (case newest ss of
        None \<Rightarrow> Some s
      | Some b \<Rightarrow> if snap_transaction b < snap_transaction s then Some s else Some b)"

definition spec_getBestSnapshot ::
  "snapshot list \<Rightarrow> jsval \<Rightarrow> jsval \<Rightarrow> jsval \<Rightarrow> snapshot option" where
  "spec_getBestSnapshot snaps bk account meta =
     newest (filter (\<lambda>s. JStr (snap_book s) = bk \<and> snap_account s = account
                          \<and> snap_meta s = meta) snaps)"

text \<open>The words of the specification: the balance of the snapshot used, 0 without one;
  the delta, the transactions that match the live filter; the sum of credit minus debit
  over transactions, as the store computes it; and adding 0 changes no number, which is
  so for doubles (the sign of zero apart, which the model does not keep).\<close>

definition base_balance :: "snapshot option \<Rightarrow> jsnum" where
  "base_balance snap = (case snap of None \<Rightarrow> Finite 0 | Some s \<Rightarrow> snap_balance s)"

definition delta :: "matcher \<Rightarrow> snapshot option \<Rightarrow> jsobj \<Rightarrow> transaction list \<Rightarrow> transaction list" where
  "delta matches snap parsedQuery txs = filter (matches (live_filter snap parsedQuery)) txs"

definition credit_minus_debit :: "arith \<Rightarrow> transaction list \<Rightarrow> jsnum" where
  "credit_minus_debit a ts =
     store_sum a (map (\<lambda>t. store_subtract a (tx_credit t) (tx_debit t)) ts)"

definition zero_neutral :: "arith \<Rightarrow> bool" where
  "zero_neutral a = (\<forall>x. js_plus a (Finite 0) x = x)"

section \<open>Voiding a journal\<close>

text \<open>
  Identifiers of the document store are modelled as natural numbers, ordered as the
  store orders them. \<open>journalModel.findOne({_id, book})\<close> returns the first journal
  of the collection with that identifier and that book, or \<open>null\<close>.
\<close>

record journal =
  journal_id :: nat
  journal_book :: string
  journal_memo :: string
  journal_voided :: bool

definition findOne_journal :: "nat \<Rightarrow> string \<Rightarrow> journal list \<Rightarrow> journal option" where
  "findOne_journal jid bk journals =
     find (\<lambda>j. journal_id j = jid \<and> journal_book j = bk) journals"

text \<open>\<open>Book.void\<close>. The method \<open>journal.void\<close> of the journal model is the
  parameter \<open>journal_void\<close>: it receives the fetched journal, the book and the
  reason.\<close>

definition Book_void ::
  "(journal \<Rightarrow> Book \<Rightarrow> jsval \<Rightarrow> error + 'r) \<Rightarrow> Book \<Rightarrow> journal list \<Rightarrow> nat \<Rightarrow> jsval
     \<Rightarrow> error + 'r" where
  "Book_void journal_void book journals jid reason =
     (case findOne_journal jid (name book) journals of
        None \<Rightarrow> Inl JournalNotFoundError
      | Some j \<Rightarrow> journal_void j book reason)"

section \<open>Write locks on accounts\<close>

record lock_doc =
  lock_book :: string
  lock_account :: string
  lock_updatedAt :: int
  lock_v :: int

text \<open>\<open>new Set(accounts)\<close> adds the accounts one by one, an element already in the
  set being ignored; \<open>Array.from\<close> lists the set in insertion order.\<close>

definition set_add :: "'a \<Rightarrow> 'a list \<Rightarrow> 'a list" where
  "set_add x s = (if x \<in> set s then s else s @ [x])"

definition array_from_set :: "'a list \<Rightarrow> 'a list" where
  "array_from_set xs = fold set_add xs []"

text \<open>\<open>updateOne({account, book}, {$set: {updatedAt}, $setOnInsert: {book, account},
  $inc: {__v: 1}}, {upsert: true})\<close>: the first matching document is updated; when
  there is none, one is inserted, its \<open>__v\<close> being the increment.\<close>

fun updateOne_lock :: "string \<Rightarrow> string \<Rightarrow> int \<Rightarrow> lock_doc list \<Rightarrow> lock_doc list" where
  "updateOne_lock bk acct now [] =
     [\<lparr>lock_book = bk, lock_account = acct, lock_updatedAt = now, lock_v = 1\<rparr>]"
| "updateOne_lock bk acct now (d # ds) =
     (if lock_account d = acct \<and> lock_book d = bk
      then d\<lparr>lock_updatedAt := now, lock_v := lock_v d + 1\<rparr> # ds
      else d # updateOne_lock bk acct now ds)"

text \<open>The loop of \<open>writelockAccounts\<close>. Every iteration reads the clock
  (\<open>new Date()\<close>): \<open>clock i\<close> is the time read by the \<open>i\<close>-th call of the store. The
  calls made are logged as pairs of the account and the time.\<close>

fun lock_loop ::
  "string \<Rightarrow> (nat \<Rightarrow> int) \<Rightarrow> nat \<Rightarrow> string list \<Rightarrow> (string \<times> int) list \<times> lock_doc list
     \<Rightarrow> (string \<times> int) list \<times> lock_doc list" where
  "lock_loop bk clock i [] st = st"
| "lock_loop bk clock i (a # as) (calls, locks) =
     lock_loop bk clock (Suc i) as
       (calls @ [(a, clock i)], updateOne_lock bk a (clock i) locks)"

definition writelockAccounts ::
  "Book \<Rightarrow> (nat \<Rightarrow> int) \<Rightarrow> string list \<Rightarrow> lock_doc list \<Rightarrow> (string \<times> int) list \<times> lock_doc list" where
  "writelockAccounts book clock accounts locks =
     lock_loop (name book) clock 0 (array_from_set accounts) ([], locks)"

text \<open>What a lock document says about an account of a book.\<close>

definition find_lock :: "string \<Rightarrow> string \<Rightarrow> lock_doc list \<Rightarrow> lock_doc option" where
  "find_lock bk acct locks = find (\<lambda>d. lock_account d = acct \<and> lock_book d = bk) locks"

definition revision :: "string \<Rightarrow> string \<Rightarrow> lock_doc list \<Rightarrow> int" where
  "revision bk acct locks = (case find_lock bk acct locks of None \<Rightarrow> 0 | Some d \<Rightarrow> lock_v d)"

definition first_index :: "'a \<Rightarrow> 'a list \<Rightarrow> nat" where
  "first_index x xs = length (takeWhile (\<lambda>y. y \<noteq> x) xs)"

definition in_first_occurrence_order :: "'a list \<Rightarrow> 'a list \<Rightarrow> bool" where
  "in_first_occurrence_order ys xs =
     sorted_wrt (\<lambda>a b. first_index a xs < first_index b xs) ys"

text \<open>The specification's words for the order of the locks: the distinct accounts, each
  at its first occurrence.\<close>

fun first_occurrences :: "'a list \<Rightarrow> 'a list" where
  "first_occurrences [] = []"
| "first_occurrences (x # xs) = x # filter (\<lambda>y. y \<noteq> x) (first_occurrences xs)"

section \<open>Examples\<close>

text \<open>A book with the default options, and a parser that knows the dates of the
  specification's date range scenario.\<close>

definition my_book :: Book where
  "my_book = \<lparr>name = ''MyBook'', precision = Finite 8, maxAccountPath = Finite 3,
     balanceSnapshotSec = Finite 86400\<rparr>"

definition scenario_dates :: "string \<Rightarrow> int option" where
  "scenario_dates s =
     (if s = ''2024-05-01'' then Some 1714521600000
      else if s = ''2024-07-01'' then Some 1719792000000
      else None)"

text \<open>A matcher for the examples: equality on the book, membership in the accounts of
  the document, and an identifier above the bound of \<open>_id\<close>.\<close>

definition example_matches :: matcher where
  "example_matches f t =
     (get_prop ''book'' f = get_prop ''book'' (tx_fields t)
      \<and> (case get_prop ''accounts'' f of
            JUndefined \<Rightarrow> True
          | a \<Rightarrow> (case get_prop ''accounts'' (tx_fields t) of
                   JArr xs \<Rightarrow> a \<in> set xs
                 | _ \<Rightarrow> False))
      \<and> (case get_prop ''_id'' f of
            JObj [(op, JObjectId i)] \<Rightarrow> i < tx_id t
          | _ \<Rightarrow> True))"

definition posting :: "nat \<Rightarrow> int \<Rightarrow> string list \<Rightarrow> real \<Rightarrow> real \<Rightarrow> transaction" where
  "posting i time accounts debit credit =
     \<lparr>tx_id = i, tx_datetime = time, tx_timestamp = time, tx_debit = Finite debit,
      tx_credit = Finite credit,
      tx_fields = [(''book'', JStr ''MyBook''), (''accounts'', JArr (map JStr accounts))]\<rparr>"

text \<open>
  The arithmetic of the examples. It computes exact results: the sum, difference and
  product of the numbers, and for \<open>parseFloat(x.toFixed(digits))\<close> the magnitude rounded
  to the nearest multiple of \<open>10^-digits\<close>, the larger one when two are equally near
  (from \<open>10^21\<close> on the number is printed as it is). An operation on doubles returns the
  exact result whenever that is a double, and the numbers of the examples are chosen so:
  every amount and every exact result below is a multiple of \<open>1/256\<close> of small size, so
  that this is the arithmetic of the doubles there.
\<close>

fun num_negate :: "jsnum \<Rightarrow> jsnum" where
  "num_negate (Finite r) = Finite (- r)"
| "num_negate NaN = NaN"
| "num_negate PosInf = NegInf"
| "num_negate NegInf = PosInf"

fun exact_plus :: "jsnum \<Rightarrow> jsnum \<Rightarrow> jsnum" where
  "exact_plus (Finite x) (Finite y) = Finite (x + y)"
| "exact_plus NaN y = NaN"
| "exact_plus x NaN = NaN"
| "exact_plus PosInf NegInf = NaN"
| "exact_plus NegInf PosInf = NaN"
| "exact_plus PosInf y = PosInf"
| "exact_plus x PosInf = PosInf"
| "exact_plus NegInf y = NegInf"
| "exact_plus x NegInf = NegInf"

fun exact_times :: "jsnum \<Rightarrow> jsnum \<Rightarrow> jsnum" where
  "exact_times (Finite x) (Finite y) = Finite (x * y)"
| "exact_times NaN y = NaN"
| "exact_times x NaN = NaN"
| "exact_times (Finite x) y =
     (if x = 0 then NaN else if (0 < x) = (y = PosInf) then PosInf else NegInf)"
| "exact_times x (Finite y) =
     (if y = 0 then NaN else if (0 < y) = (x = PosInf) then PosInf else NegInf)"
| "exact_times x y = (if x = y then PosInf else NegInf)"

definition round_fixed :: "nat \<Rightarrow> real \<Rightarrow> real" where
  "round_fixed d x =
     (if 10 ^ 21 \<le> \<bar>x\<bar> then x
      else sgn x * of_int \<lfloor>\<bar>x\<bar> * 10 ^ d + 1 / 2\<rfloor> / 10 ^ d)"

fun exact_toFixed :: "nat \<Rightarrow> jsnum \<Rightarrow> jsnum" where
  "exact_toFixed d (Finite x) = Finite (round_fixed d x)"
| "exact_toFixed d n = n"

definition exact_arith :: arith where
  "exact_arith =
     \<lparr>js_plus = exact_plus, js_times = exact_times,
      store_subtract = (\<lambda>x y. exact_plus x (num_negate y)),
      store_sum = (\<lambda>xs. foldl exact_plus (Finite 0) xs),
      toFixed_parseFloat = exact_toFixed\<rparr>"

text \<open>The book of the snapshot scenario (two digits, snapshots kept for 60 seconds), a
  snapshot of the account Assets up to transaction 1, and the two postings of one
  journal, of \<open>100.24609375 = 25663/256\<close>.\<close>

definition book60 :: Book where
  "book60 = \<lparr>name = ''MyBook'', precision = Finite 2, maxAccountPath = Finite 3,
     balanceSnapshotSec = Finite 60\<rparr>"

definition assets_snapshot :: snapshot where
  "assets_snapshot =
     \<lparr>snap_book = ''MyBook'', snap_account = JStr ''Assets'', snap_meta = JUndefined,
      snap_transaction = 1, snap_timestamp = 10, snap_balance = Finite (- (401 / 4)),
      snap_createdAt = 1000\<rparr>"

definition sale :: "transaction list" where
  "sale = [posting 1 10 [''Assets'', ''Assets:Cash''] (25663 / 256) 0,
           posting 2 10 [''Income'', ''Income:Sales''] 0 (25663 / 256)]"

text \<open>The same book with 101 digits of precision, as the constructor returns it.\<close>

definition book101 :: Book where
  "book101 = \<lparr>name = ''MyBook'', precision = Finite 101, maxAccountPath = Finite 3,
     balanceSnapshotSec = Finite 60\<rparr>"

section \<open>Properties of the constructor\<close>

lemma dropWhile_all_iff:
  "(\<forall>x \<in> set (dropWhile P xs). P x) \<longleftrightarrow> (\<forall>x \<in> set xs. P x)"
proof
  assume all: "\<forall>x \<in> set (dropWhile P xs). P x"
  have "dropWhile P xs = []"
  proof (rule ccontr)
    assume ne: "dropWhile P xs \<noteq> []"
    then have "\<not> P (hd (dropWhile P xs))" by (rule hd_dropWhile)
    moreover from ne have "hd (dropWhile P xs) \<in> set (dropWhile P xs)" by simp
    ultimately show False using all by blast
  qed
  then show "\<forall>x \<in> set xs. P x" by (simp add: dropWhile_eq_Nil_conv)
next
  assume "\<forall>x \<in> set xs. P x"
  then show "\<forall>x \<in> set (dropWhile P xs). P x" by (auto dest: set_dropWhileD)
qed

lemma trim_empty_iff: "trim s = [] \<longleftrightarrow> (\<forall>c \<in> set s. is_whitespace c)"
  by (simp add: trim_def dropWhile_eq_Nil_conv dropWhile_all_iff)

lemma invalid_name_iff:
  "invalid_name v \<longleftrightarrow> (\<forall>s. v = JStr s \<longrightarrow> (\<forall>c \<in> set s. is_whitespace c))"
  by (cases v) (auto simp: invalid_name_def trim_empty_iff)

lemma nonneg_integer_valid_count: "nonneg_integer v \<Longrightarrow> \<not> invalid_count v"
  by (auto simp: nonneg_integer_def invalid_count_def)

lemma valid_count_nonneg_integer: "\<not> invalid_count v \<Longrightarrow> nonneg_integer v"
proof (cases v)
  case (JNum n)
  assume ok: "\<not> invalid_count v"
  show ?thesis
  proof (cases n)
    case (Finite r)
    with ok JNum have int: "of_int \<lfloor>r\<rfloor> = r" and pos: "0 \<le> r"
      by (auto simp: invalid_count_def)
    from pos have "0 \<le> \<lfloor>r\<rfloor>" by simp
    then have "real (nat \<lfloor>r\<rfloor>) = r" using int by simp
    with JNum Finite show ?thesis
      by (auto simp: nonneg_integer_def intro!: exI [of _ "nat \<lfloor>r\<rfloor>"])
  qed (use ok JNum in \<open>auto simp: invalid_count_def\<close>)
qed (auto simp: invalid_count_def)

lemma nonneg_integer_valid_sec: "nonneg_integer v \<Longrightarrow> \<not> invalid_snapshot_sec v"
  by (auto simp: nonneg_integer_def invalid_snapshot_sec_def)

lemma or_default_nonneg:
  "omitted_or nonneg_integer v \<Longrightarrow> nonneg_integer (or_default v (of_nat d))"
  by (cases v) (auto simp: omitted_or_def or_default_def nonneg_integer_def)

lemma or_default_invalid:
  "\<not> omitted_or nonneg_integer v \<Longrightarrow> or_default v d = v"
  by (cases v) (auto simp: omitted_or_def or_default_def)

lemma valid_sec_cases:
  "\<not> invalid_snapshot_sec v \<longleftrightarrow> (\<exists>n. v = JNum n \<and> \<not> num_negative n)"
  by (cases v) (auto simp: invalid_snapshot_sec_def)

lemma constructor_accepts:
  assumes "trim s \<noteq> []"
    and "omitted_or nonneg_integer p" and "omitted_or nonneg_integer m"
    and "omitted_or nonneg_integer b"
  shows "Book_constructor (JStr s)
           \<lparr>opt_precision = p, opt_maxAccountPath = m, opt_balanceSnapshotSec = b\<rparr> =
         Inr \<lparr>name = s, precision = field_or_default p 8,
              maxAccountPath = field_or_default m 3,
              balanceSnapshotSec = field_or_default b 86400\<rparr>"
proof -
  have name_ok: "\<not> invalid_name (JStr s)"
    using assms(1) by (simp add: invalid_name_def)
  have dflt: "the_num (or_default v d) = field_or_default v d"
    if "omitted_or nonneg_integer v" for v d
    using that by (cases v) (auto simp: omitted_or_def nonneg_integer_def or_default_def
        field_or_default_def)
  have p_ok: "\<not> invalid_count (or_default p 8)"
    using or_default_nonneg [OF assms(2), of 8] by (simp add: nonneg_integer_valid_count)
  have m_ok: "\<not> invalid_count (or_default m 3)"
    using or_default_nonneg [OF assms(3), of 3] by (simp add: nonneg_integer_valid_count)
  have b_ok: "\<not> invalid_snapshot_sec (or_default b 86400)"
    using or_default_nonneg [OF assms(4), of 86400] by (simp add: nonneg_integer_valid_sec)
  show ?thesis
    using name_ok p_ok m_ok b_ok dflt [OF assms(2)] dflt [OF assms(3)] dflt [OF assms(4)]
    by (simp add: Book_constructor_def)
qed

lemma constructor_rejects:
  assumes "(\<forall>s. nm = JStr s \<longrightarrow> (\<forall>c \<in> set s. is_whitespace c))
         \<or> \<not> omitted_or nonneg_integer p
         \<or> \<not> omitted_or nonneg_integer m
         \<or> (not_nullish b \<and> (\<forall>n. b = JNum n \<longrightarrow> num_negative n))"
  shows "is_error (Book_constructor nm
           \<lparr>opt_precision = p, opt_maxAccountPath = m, opt_balanceSnapshotSec = b\<rparr>)"
proof -
  have p_bad: "invalid_count (or_default p 8)" if "\<not> omitted_or nonneg_integer p"
    using that valid_count_nonneg_integer [of p]
    by (auto simp: or_default_invalid [OF that] omitted_or_def)
  have m_bad: "invalid_count (or_default m 3)" if "\<not> omitted_or nonneg_integer m"
    using that valid_count_nonneg_integer [of m]
    by (auto simp: or_default_invalid [OF that] omitted_or_def)
  have b_bad: "invalid_snapshot_sec (or_default b 86400)"
    if "not_nullish b" "\<forall>n. b = JNum n \<longrightarrow> num_negative n"
    using that valid_sec_cases [of b] by (auto simp: or_default_def)
  show ?thesis
    using assms p_bad m_bad b_bad
    by (auto simp: Book_constructor_def Let_def is_error_def invalid_name_iff)
qed

text \<open>
  Claim C6, as amended. The constructor succeeds for every string name that is not
  blank (not empty once white space is trimmed) together with a non-negative integer
  precision, maxAccountPath and balanceSnapshotSec, an omitted option taking the default
  8, 3 and 86400. It throws a BookConstructorError when the name is not a string or is
  blank, when precision or maxAccountPath is given and is not a non-negative integer,
  and when balanceSnapshotSec is given and is not a number or is negative.
\<close>

theorem constructor_domains:
  "(trim s \<noteq> [] \<and> omitted_or nonneg_integer p \<and> omitted_or nonneg_integer m
      \<and> omitted_or nonneg_integer b \<longrightarrow>
    Book_constructor (JStr s)
      \<lparr>opt_precision = p, opt_maxAccountPath = m, opt_balanceSnapshotSec = b\<rparr> =
    Inr \<lparr>name = s, precision = field_or_default p 8,
         maxAccountPath = field_or_default m 3,
         balanceSnapshotSec = field_or_default b 86400\<rparr>)
   \<and> ((\<forall>s'. nm = JStr s' \<longrightarrow> (\<forall>c \<in> set s'. is_whitespace c))
         \<or> \<not> omitted_or nonneg_integer p'
         \<or> \<not> omitted_or nonneg_integer m'
         \<or> (not_nullish b' \<and> (\<forall>n. b' = JNum n \<longrightarrow> num_negative n)) \<longrightarrow>
       is_error (Book_constructor nm
         \<lparr>opt_precision = p', opt_maxAccountPath = m', opt_balanceSnapshotSec = b'\<rparr>))"
  using constructor_accepts [of s p m b] constructor_rejects [of nm p' m' b'] by blast

theorem constructor_domains_witness:
  "Book_constructor (JStr ''MyBook'')
     \<lparr>opt_precision = JNum (Finite 2), opt_maxAccountPath = JUndefined,
      opt_balanceSnapshotSec = JNum (Finite 60)\<rparr> =
   Inr \<lparr>name = ''MyBook'', precision = Finite 2, maxAccountPath = Finite 3,
        balanceSnapshotSec = Finite 60\<rparr>
   \<and> is_error (Book_constructor (JStr ''MyBook'')
         \<lparr>opt_precision = JNum (Finite (3 / 2)), opt_maxAccountPath = JUndefined,
          opt_balanceSnapshotSec = JUndefined\<rparr>)"
proof -
  have two: "nonneg_integer (JNum (Finite 2))" and sixty: "nonneg_integer (JNum (Finite 60))"
    using nonneg_integer_def [of "JNum (Finite 2)"] nonneg_integer_def [of "JNum (Finite 60)"]
      of_nat_numeral [where ?'a = real, of "num.Bit0 num.One"]
      of_nat_numeral [where ?'a = real, of "num.Bit0 (num.Bit0 (num.Bit1 (num.Bit1 (num.Bit1 num.One))))"]
    by metis+
  have frac: "\<not> nonneg_integer (JNum (Finite (3 / 2)))"
  proof
    assume "nonneg_integer (JNum (Finite (3 / 2)))"
    then obtain k :: nat where "real k = 3 / 2" by (auto simp: nonneg_integer_def)
    then have "real (2 * k) = real 3" by simp
    then have "2 * k = 3" by (simp only: of_nat_eq_iff)
    then show False by presburger
  qed
  have nm: "trim ''MyBook'' \<noteq> []"
    by (simp add: trim_def is_whitespace_def)
  show ?thesis
    using constructor_domains [of "''MyBook''" "JNum (Finite 2)" JUndefined "JNum (Finite 60)"
        "JStr ''MyBook''" "JNum (Finite (3 / 2))" JUndefined JUndefined] two sixty frac nm
    by (simp add: omitted_or_def field_or_default_def)
qed

text \<open>
  Counterexample to claim C6 as stated: a name of two spaces is a non-empty string, the
  options are all omitted, and the constructor throws.
\<close>

theorem constructor_blank_name_counterexample:
  "''  '' \<noteq> [] \<and> Book_constructor (JStr ''  '') no_options =
     Inl (BookConstructorError ''Invalid value for name provided.'')"
  by (simp add: Book_constructor_def invalid_name_def trim_def is_whitespace_def no_options_def)

text \<open>The check of balanceSnapshotSec has no integer test: one and a half seconds is
  accepted, while the same value is refused as a precision.\<close>

lemma constructor_fractional_snapshot_sec:
  "Book_constructor (JStr ''MyBook'')
     \<lparr>opt_precision = JUndefined, opt_maxAccountPath = JUndefined,
      opt_balanceSnapshotSec = JNum (Finite (3 / 2))\<rparr> =
   Inr \<lparr>name = ''MyBook'', precision = Finite 8, maxAccountPath = Finite 3,
        balanceSnapshotSec = Finite (3 / 2)\<rparr>"
  by (simp add: Book_constructor_def invalid_name_def trim_def is_whitespace_def
      or_default_def invalid_count_def invalid_snapshot_sec_def)

section \<open>Properties of the write locks\<close>

lemma set_first_occurrences: "set (first_occurrences xs) = set xs"
  by (induction xs) auto

lemma distinct_first_occurrences: "distinct (first_occurrences xs)"
  by (induction xs) auto

lemma fold_set_add:
  "fold set_add xs acc = acc @ filter (\<lambda>x. x \<notin> set acc) (first_occurrences xs)"
proof (induction xs arbitrary: acc)
  case Nil
  then show ?case by simp
next
  case (Cons x xs)
  show ?case
  proof (cases "x \<in> set acc")
    case True
    have "filter (\<lambda>y. y \<notin> set acc) (filter (\<lambda>y. y \<noteq> x) (first_occurrences xs)) =
          filter (\<lambda>y. y \<notin> set acc) (first_occurrences xs)"
      using True by (auto intro: filter_cong)
    with True Cons.IH [of acc] show ?thesis by (simp add: set_add_def)
  next
    case False
    have "filter (\<lambda>y. y \<notin> set (acc @ [x])) (first_occurrences xs) =
          filter (\<lambda>y. y \<notin> set acc) (filter (\<lambda>y. y \<noteq> x) (first_occurrences xs))"
      by (auto intro: filter_cong)
    with False Cons.IH [of "acc @ [x]"] show ?thesis by (simp add: set_add_def)
  qed
qed

lemma array_from_set_eq: "array_from_set xs = first_occurrences xs"
  by (simp add: array_from_set_def fold_set_add)

lemma first_index_Cons:
  "first_index a (x # xs) = (if a = x then 0 else Suc (first_index a xs))"
  by (auto simp: first_index_def)

lemma first_occurrences_order: "in_first_occurrence_order (first_occurrences xs) xs"
proof (induction xs)
  case Nil
  then show ?case by (simp add: in_first_occurrence_order_def)
next
  case (Cons x xs)
  have "sorted_wrt (\<lambda>a b. first_index a xs < first_index b xs)
          (filter (\<lambda>y. y \<noteq> x) (first_occurrences xs))"
    using Cons.IH by (simp add: in_first_occurrence_order_def sorted_wrt_filter)
  then have "sorted_wrt (\<lambda>a b. first_index a (x # xs) < first_index b (x # xs))
          (filter (\<lambda>y. y \<noteq> x) (first_occurrences xs))"
    by (rule sorted_wrt_mono_rel [rotated]) (auto simp: first_index_Cons)
  then show ?case
    by (auto simp: in_first_occurrence_order_def first_index_Cons)
qed

lemma find_lock_updateOne_same:
  "\<exists>d. find_lock bk a (updateOne_lock bk a now locks) = Some d \<and> lock_updatedAt d = now
     \<and> lock_v d = revision bk a locks + 1"
  by (induction locks) (auto simp: find_lock_def revision_def)

lemma find_lock_updateOne_other:
  "a' \<noteq> a \<or> bk' \<noteq> bk \<Longrightarrow> find_lock bk' a' (updateOne_lock bk a now locks) = find_lock bk' a' locks"
  by (induction locks) (auto simp: find_lock_def)

lemma lock_loop_calls:
  "fst (lock_loop bk clock i as (calls, locks)) =
     calls @ map (\<lambda>(k, a). (a, clock k)) (enumerate i as)"
  by (induction as arbitrary: i calls locks) auto

lemma lock_loop_other:
  "a' \<notin> set as \<or> bk' \<noteq> bk \<Longrightarrow>
   find_lock bk' a' (snd (lock_loop bk clock i as (calls, locks))) = find_lock bk' a' locks"
proof (induction as arbitrary: i calls locks)
  case Nil
  then show ?case by simp
next
  case (Cons a as)
  from Cons.prems have "a' \<noteq> a \<or> bk' \<noteq> bk" and "a' \<notin> set as \<or> bk' \<noteq> bk" by auto
  then show ?case
    using Cons.IH [of "Suc i" "calls @ [(a, clock i)]" "updateOne_lock bk a (clock i) locks"]
    by (simp add: find_lock_updateOne_other)
qed

lemma lock_loop_locked:
  assumes "distinct as" and "k < length as"
  shows "\<exists>d. find_lock bk (as ! k) (snd (lock_loop bk clock i as (calls, locks))) = Some d
           \<and> lock_updatedAt d = clock (i + k)
           \<and> lock_v d = revision bk (as ! k) locks + 1"
  using assms
proof (induction as arbitrary: i k calls locks)
  case Nil
  then show ?case by simp
next
  case (Cons a as)
  let ?locks = "updateOne_lock bk a (clock i) locks"
  let ?calls = "calls @ [(a, clock i)]"
  show ?case
  proof (cases k)
    case 0
    from Cons.prems have "a \<notin> set as" by simp
    then have "find_lock bk a (snd (lock_loop bk clock (Suc i) as (?calls, ?locks))) =
               find_lock bk a ?locks"
      by (simp add: lock_loop_other)
    with 0 find_lock_updateOne_same [of bk a "clock i" locks] show ?thesis by simp
  next
    case (Suc j)
    with Cons.prems have j: "j < length as" and d: "distinct as" and ne: "as ! j \<noteq> a"
      by auto
    have "revision bk (as ! j) ?locks = revision bk (as ! j) locks"
      using ne by (simp add: revision_def find_lock_updateOne_other)
    with Cons.IH [OF d j, of "Suc i" ?calls ?locks] Suc show ?thesis by simp
  qed
qed

text \<open>
  Claim C9. For every list of accounts, \<open>writelockAccounts\<close> makes one upsert for each
  distinct account, in the order of the accounts' first occurrences in the list; the
  \<open>k\<close>-th upsert leaves the lock document of its account with the time read at that
  call and with a revision one above the revision before the call (0 when there was no
  document); the lock documents of other accounts and books are as before.
\<close>

theorem writelockAccounts_upserts:
  assumes "writelockAccounts book clock accounts locks = (calls, locks')"
  shows "map fst calls = first_occurrences accounts
    \<and> distinct (map fst calls) \<and> set (map fst calls) = set accounts
    \<and> in_first_occurrence_order (map fst calls) accounts
    \<and> (\<forall>k < length calls. snd (calls ! k) = clock k \<and>
          (\<exists>d. find_lock (name book) (fst (calls ! k)) locks' = Some d
             \<and> lock_updatedAt d = clock k
             \<and> lock_v d = revision (name book) (fst (calls ! k)) locks + 1))
    \<and> (\<forall>a bk. a \<notin> set accounts \<or> bk \<noteq> name book \<longrightarrow>
          find_lock bk a locks' = find_lock bk a locks)"
proof -
  let ?ds = "first_occurrences accounts"
  have calls: "calls = map (\<lambda>(k, a). (a, clock k)) (enumerate 0 ?ds)"
    using assms lock_loop_calls [of "name book" clock 0 ?ds "[]" locks]
    by (simp add: writelockAccounts_def array_from_set_eq)
  have locks': "locks' = snd (lock_loop (name book) clock 0 ?ds ([], locks))"
    using assms by (simp add: writelockAccounts_def array_from_set_eq)
  have accounts: "map fst calls = ?ds"
    unfolding calls by (simp add: enumerate_eq_zip map_zip_map2 [symmetric] comp_def
        case_prod_unfold del: upt_Suc)
  have len: "length calls = length ?ds"
    using accounts by (metis length_map)
  have times: "snd (calls ! k) = clock k" if "k < length calls" for k
    using that unfolding calls by (simp add: nth_enumerate_eq)
  have each: "\<exists>d. find_lock (name book) (fst (calls ! k)) locks' = Some d
             \<and> lock_updatedAt d = clock k
             \<and> lock_v d = revision (name book) (fst (calls ! k)) locks + 1"
    if "k < length calls" for k
  proof -
    from that len have k: "k < length ?ds" by simp
    have "fst (calls ! k) = ?ds ! k"
      using that accounts by (metis nth_map)
    with lock_loop_locked [OF distinct_first_occurrences k, of "name book" clock 0 "[]" locks]
    show ?thesis by (simp add: locks')
  qed
  have rest: "find_lock bk a locks' = find_lock bk a locks"
    if "a \<notin> set accounts \<or> bk \<noteq> name book" for a bk
    using that lock_loop_other [of a ?ds bk "name book" clock 0 "[]" locks]
    by (simp add: locks' set_first_occurrences)
  show ?thesis
    using accounts times each rest
    by (simp add: distinct_first_occurrences set_first_occurrences first_occurrences_order)
qed

theorem writelockAccounts_upserts_witness:
  "writelockAccounts \<lparr>name = ''B'', precision = Finite 8, maxAccountPath = Finite 3,
       balanceSnapshotSec = Finite 0\<rparr> (\<lambda>k. 100 + int k) [''X'', ''Y'', ''X'']
     [\<lparr>lock_book = ''B'', lock_account = ''Y'', lock_updatedAt = 7, lock_v = 5\<rparr>] =
   ([(''X'', 100), (''Y'', 101)],
    [\<lparr>lock_book = ''B'', lock_account = ''Y'', lock_updatedAt = 101, lock_v = 6\<rparr>,
     \<lparr>lock_book = ''B'', lock_account = ''X'', lock_updatedAt = 100, lock_v = 1\<rparr>])
   \<and> first_occurrences [''X'', ''Y'', ''X''] = [''X'', ''Y'']
   \<and> in_first_occurrence_order [''X'', ''Y''] [''X'', ''Y'', ''X'']"
proof -
  let ?book = "\<lparr>name = ''B'', precision = Finite 8, maxAccountPath = Finite 3,
       balanceSnapshotSec = Finite 0\<rparr>"
  let ?locks = "[\<lparr>lock_book = ''B'', lock_account = ''Y'', lock_updatedAt = 7, lock_v = 5\<rparr>]"
  have run: "writelockAccounts ?book (\<lambda>k. 100 + int k) [''X'', ''Y'', ''X''] ?locks =
   ([(''X'', 100), (''Y'', 101)],
    [\<lparr>lock_book = ''B'', lock_account = ''Y'', lock_updatedAt = 101, lock_v = 6\<rparr>,
     \<lparr>lock_book = ''B'', lock_account = ''X'', lock_updatedAt = 100, lock_v = 1\<rparr>])"
    by (simp add: writelockAccounts_def array_from_set_def set_add_def)
  from writelockAccounts_upserts [OF run] run show ?thesis by simp
qed

section \<open>Properties of voiding\<close>

lemma findOne_journal_None:
  "findOne_journal jid bk journals = None \<longleftrightarrow>
     \<not> (\<exists>j \<in> set journals. journal_id j = jid \<and> journal_book j = bk)"
  by (auto simp: findOne_journal_def find_None_iff)

lemma findOne_journal_Some:
  "findOne_journal jid bk journals = Some j \<Longrightarrow>
     j \<in> set journals \<and> journal_id j = jid \<and> journal_book j = bk"
  by (auto simp: findOne_journal_def find_Some_iff)

text \<open>
  Claim C7. For every journal identifier, \<open>Book.void\<close> throws a JournalNotFoundError
  when the journals hold none with that identifier and the name of this book; otherwise
  its result is that of \<open>journal.void\<close> on a journal of the collection that has that
  identifier and this book.
\<close>

theorem Book_void_not_found:
  "(\<not> (\<exists>j \<in> set journals. journal_id j = jid \<and> journal_book j = name book) \<longrightarrow>
      Book_void journal_void book journals jid reason = Inl JournalNotFoundError)
   \<and> ((\<exists>j \<in> set journals. journal_id j = jid \<and> journal_book j = name book) \<longrightarrow>
      (\<exists>j \<in> set journals. journal_id j = jid \<and> journal_book j = name book \<and>
         findOne_journal jid (name book) journals = Some j \<and>
         Book_void journal_void book journals jid reason = journal_void j book reason))"
proof (cases "findOne_journal jid (name book) journals")
  case None
  then show ?thesis
    using findOne_journal_None [of jid "name book" journals] by (simp add: Book_void_def)
next
  case (Some j)
  with findOne_journal_Some [OF Some] show ?thesis
    by (auto simp: Book_void_def)
qed

theorem Book_void_not_found_witness:
  "Book_void (\<lambda>j b r. Inr (journal_memo j))
     \<lparr>name = ''B'', precision = Finite 8, maxAccountPath = Finite 3,
      balanceSnapshotSec = Finite 0\<rparr>
     [\<lparr>journal_id = 1, journal_book = ''A'', journal_memo = ''other book'', journal_voided = False\<rparr>,
      \<lparr>journal_id = 2, journal_book = ''B'', journal_memo = ''rent'', journal_voided = False\<rparr>]
     1 JUndefined = Inl JournalNotFoundError
   \<and> Book_void (\<lambda>j b r. Inr (journal_memo j))
     \<lparr>name = ''B'', precision = Finite 8, maxAccountPath = Finite 3,
      balanceSnapshotSec = Finite 0\<rparr>
     [\<lparr>journal_id = 1, journal_book = ''A'', journal_memo = ''other book'', journal_voided = False\<rparr>,
      \<lparr>journal_id = 2, journal_book = ''B'', journal_memo = ''rent'', journal_voided = False\<rparr>]
     2 JUndefined = Inr ''rent''"
proof -
  let ?book = "\<lparr>name = ''B'', precision = Finite 8, maxAccountPath = Finite 3,
      balanceSnapshotSec = Finite 0\<rparr>"
  let ?js = "[\<lparr>journal_id = 1, journal_book = ''A'', journal_memo = ''other book'', journal_voided = False\<rparr>,
      \<lparr>journal_id = 2, journal_book = ''B'', journal_memo = ''rent'', journal_voided = False\<rparr>]"
  let ?void = "\<lambda>(j::journal) (b::Book) (r::jsval). Inr (journal_memo j) :: error + string"
  from Book_void_not_found [of ?js 1 ?book ?void JUndefined]
  have absent: "Book_void ?void ?book ?js 1 JUndefined = Inl JournalNotFoundError"
    by simp
  from Book_void_not_found [of ?js 2 ?book ?void JUndefined]
  have present: "Book_void ?void ?book ?js 2 JUndefined = Inr ''rent''"
    by (auto simp: findOne_journal_def)
  from absent present show ?thesis by simp
qed

section \<open>Properties of the query compiler\<close>

lemma get_prop_set_prop:
  "get_prop k (set_prop k' v obj) = (if k = k' then v else get_prop k obj)"
  by (induction obj) (auto simp: get_prop_def)

lemma keys_set_prop: "fst ` set (set_prop k v obj) = insert k (fst ` set obj)"
  by (induction obj) auto


lemma set_prop_twice: "set_prop k v (set_prop k v' obj) = set_prop k v obj"
  by (induction obj) auto

lemma get_prop_absent: "\<not> has_prop k obj \<Longrightarrow> get_prop k obj = JUndefined"
  using map_of_eq_None_iff [of obj k] by (simp add: get_prop_def has_prop_def)



lemma keys_spread: "fst ` set (spread ps obj) = fst ` set ps \<union> fst ` set obj"
  unfolding spread_def by (induction ps arbitrary: obj) (auto simp: keys_set_prop)

lemma assign_prop_Inr:
  "assign_prop k v obj = Inr obj' \<Longrightarrow>
     (k = ''__proto__'' \<and> obj' = obj) \<or> (k \<noteq> ''__proto__'' \<and> obj' = set_prop k v obj)"
  by (auto simp: assign_prop_def split: if_splits)





lemma meta_assign_Inr:
  assumes "meta_assign k v f = Inr f'"
  shows "\<exists>m'. f' = set_prop ''meta'' (JObj m') f
           \<and> (k = ''__proto__'' \<and> m' = meta_fields f
                \<or> k \<noteq> ''__proto__'' \<and> m' = set_prop k v (meta_fields f))
           \<and> (truthy (get_prop ''meta'' f) \<longrightarrow> (\<exists>m. get_prop ''meta'' f = JObj m))"
proof (cases "truthy (get_prop ''meta'' f)")
  case True
  with assms obtain m where m: "get_prop ''meta'' f = JObj m"
    by (auto simp: meta_assign_def split: jsval.splits)
  with assms True show ?thesis
    by (auto simp: meta_assign_def meta_fields_def dest!: assign_prop_Inr split: sum.splits)
next
  case False
  then have mf: "meta_fields f = []"
    by (cases "get_prop ''meta'' f") (auto simp: meta_fields_def)
  from assms False show ?thesis
    by (auto simp: meta_assign_def mf get_prop_set_prop set_prop_twice
        dest!: assign_prop_Inr split: sum.splits)
qed

lemma extra_step_Inr:
  assumes "extra_step h (k, v) f = Inr f'"
  shows "(isPrototypeAttribute h k \<and> f' = f) \<or>
         (\<not> isPrototypeAttribute h k \<and>
          (\<exists>nv. coerce h k v = Inr nv \<and>
             (if isValidTransactionKey h k then assign_prop k nv f = Inr f'
              else meta_assign k nv f = Inr f')))"
  using assms by (auto simp: extra_step_def split: if_splits sum.splits)


lemma meta_fields_set_prop_other:
  "k \<noteq> ''meta'' \<Longrightarrow> meta_fields (set_prop k v f) = meta_fields f"
  by (simp add: meta_fields_def get_prop_set_prop)

lemma meta_fields_set_prop_meta:
  "meta_fields (set_prop ''meta'' (JObj m) f) = m"
  by (simp add: meta_fields_def get_prop_set_prop)



lemma date_range_Inr:
  assumes "date_range h s e f = Inr f'"
  shows "f' = f \<or> (\<exists>d. f' = set_prop ''datetime'' d f)"
  using assms by (auto simp: date_range_def split: if_splits sum.splits)

lemma parseQuery_Inr:
  assumes "parseQuery h q book = Inr f"
  obtains acct f0 where
    "parseAccountField h (get_prop ''account'' q) (maxAccountPath book) = Inr acct"
    "date_range h (get_prop ''start_date'' q) (get_prop ''end_date'' q)
       (spread acct [(''book'', JStr (name book))]) = Inr f0"
    "extra_loop h (extra_of q) f0 = Inr f"
  using assms by (auto simp: parseQuery_def split: sum.splits)

lemma initial_keys:
  assumes "account_fields_only h"
    and "parseAccountField h a m = Inr acct"
    and "date_range h s e (spread acct [(''book'', JStr nm)]) = Inr f0"
  shows "fst ` set f0 \<subseteq> {''book'', ''datetime'', ''account_path'', ''accounts'', ''$or''}"
proof -
  from assms(1,2) have "fst ` set acct \<subseteq> {''account_path'', ''accounts'', ''$or''}"
    unfolding account_fields_only_def by blast
  then have "fst ` set (spread acct [(''book'', JStr nm)]) \<subseteq>
      {''book'', ''account_path'', ''accounts'', ''$or''}"
    by (auto simp: keys_spread)
  then have base: "fst ` set (spread acct [(''book'', JStr nm)]) \<subseteq>
      {''book'', ''datetime'', ''account_path'', ''accounts'', ''$or''}"
    by blast
  from date_range_Inr [OF assms(3)] show ?thesis
  proof (elim disjE exE)
    assume "f0 = spread acct [(''book'', JStr nm)]"
    with base show ?thesis by simp
  next
    fix d
    assume "f0 = set_prop ''datetime'' d (spread acct [(''book'', JStr nm)])"
    then have "fst ` set f0 = insert ''datetime'' (fst ` set (spread acct [(''book'', JStr nm)]))"
      by (simp only: keys_set_prop)
    with base show ?thesis by blast
  qed
qed




lemma spec_account_fields_only: "account_fields_only (spec_helpers date_parse)"
  unfolding account_fields_only_def
proof (intro allI impI)
  fix a m obj
  assume "parseAccountField (spec_helpers date_parse) a m = Inr obj"
  then have "spec_parseAccountField a m = Inr obj" by (simp add: spec_helpers_def)
  then show "fst ` set obj \<subseteq> {''account_path'', ''accounts'', ''$or''}"
    by (cases a) (auto simp: account_field_def split: if_splits)
qed

lemmas compile_simps =
  parseQuery_def spec_helpers_def get_prop_def extra_of_def spread_def date_range_def
  date_bound_def extra_step_def coerce_def meta_assign_def assign_prop_def
  spec_isPrototypeAttribute_def spec_isValidTransactionKey_def
  spec_isTransactionObjectIdKey_def transaction_columns_def account_field_def
  my_book_def scenario_dates_def



lemma extra_step_top_other:
  assumes "extra_step h (k', v') f = Inr f'" and "k \<noteq> k'" and "k \<noteq> ''meta''"
  shows "get_prop k f' = get_prop k f"
proof -
  from extra_step_Inr [OF assms(1)] consider
    (skip) "f' = f"
    | (top) nv where "assign_prop k' nv f = Inr f'"
    | (meta) nv where "meta_assign k' nv f = Inr f'"
    by (auto split: if_splits)
  then show ?thesis
  proof cases
    case skip
    then show ?thesis by simp
  next
    case top
    from assign_prop_Inr [OF this] assms(2) show ?thesis
      by (auto simp: get_prop_set_prop)
  next
    case meta
    from meta_assign_Inr [OF this] assms(3) show ?thesis
      by (auto simp: get_prop_set_prop)
  qed
qed

lemma extra_loop_top_other:
  assumes "extra_loop h ps f = Inr f'" and "k \<notin> fst ` set ps" and "k \<noteq> ''meta''"
  shows "get_prop k f' = get_prop k f"
  using assms
proof (induction ps arbitrary: f)
  case Nil
  then show ?case by simp
next
  case (Cons p ps)
  from Cons.prems(1) obtain f1 where
    step: "extra_step h (fst p, snd p) f = Inr f1" and rest: "extra_loop h ps f1 = Inr f'"
    by (auto split: sum.splits)
  from Cons.prems(2) have "k \<noteq> fst p" and "k \<notin> fst ` set ps" by auto
  with extra_step_top_other [OF step _ Cons.prems(3)] Cons.IH [OF rest _ Cons.prems(3)]
  show ?case by simp
qed

lemma extra_step_meta_other:
  assumes "extra_step h (k', v') f = Inr f'" and "k \<noteq> k'" and "k' \<noteq> ''meta''"
  shows "get_prop k (meta_fields f') = get_prop k (meta_fields f)"
proof -
  from extra_step_Inr [OF assms(1)] consider
    (skip) "f' = f"
    | (top) nv where "assign_prop k' nv f = Inr f'"
    | (meta) nv where "meta_assign k' nv f = Inr f'"
    by (auto split: if_splits)
  then show ?thesis
  proof cases
    case skip
    then show ?thesis by simp
  next
    case top
    from assign_prop_Inr [OF this] assms(3) show ?thesis
      by (auto simp: meta_fields_set_prop_other)
  next
    case meta
    from meta_assign_Inr [OF this] assms(2) show ?thesis
      by (auto simp: meta_fields_set_prop_meta get_prop_set_prop)
  qed
qed

lemma extra_loop_meta_other:
  assumes "extra_loop h ps f = Inr f'" and "k \<notin> fst ` set ps" and "''meta'' \<notin> fst ` set ps"
  shows "get_prop k (meta_fields f') = get_prop k (meta_fields f)"
  using assms
proof (induction ps arbitrary: f)
  case Nil
  then show ?case by simp
next
  case (Cons p ps)
  from Cons.prems(1) obtain f1 where
    step: "extra_step h (fst p, snd p) f = Inr f1" and rest: "extra_loop h ps f1 = Inr f'"
    by (auto split: sum.splits)
  from Cons.prems(2,3) have "k \<noteq> fst p" "k \<notin> fst ` set ps"
    "fst p \<noteq> ''meta''" "''meta'' \<notin> fst ` set ps" by auto
  with extra_step_meta_other [OF step] Cons.IH [OF rest]
  show ?case by simp
qed

lemma extra_step_places:
  assumes "extra_step h (k, v) f = Inr f'" and "\<not> isPrototypeAttribute h k"
    and "k \<noteq> ''__proto__''"
  shows "\<exists>nv. coerce h k v = Inr nv \<and>
           (if isValidTransactionKey h k then get_prop k f' = nv
            else get_prop k (meta_fields f') = nv)"
proof -
  from extra_step_Inr [OF assms(1)] assms(2) obtain nv where
    nv: "coerce h k v = Inr nv"
    and place: "if isValidTransactionKey h k then assign_prop k nv f = Inr f'
                else meta_assign k nv f = Inr f'"
    by auto
  show ?thesis
  proof (cases "isValidTransactionKey h k")
    case True
    with place assign_prop_Inr [of k nv f f'] assms(3) nv show ?thesis
      by (auto simp: get_prop_set_prop)
  next
    case False
    with place meta_assign_Inr [of k nv f f'] assms(3) nv show ?thesis
      by (auto simp: meta_fields_set_prop_meta get_prop_set_prop)
  qed
qed

lemma extra_loop_places:
  assumes "extra_loop h ps f0 = Inr f" and "distinct (map fst ps)" and "(k, v) \<in> set ps"
    and "\<not> isPrototypeAttribute h k" and "''meta'' \<notin> fst ` set ps" and "k \<noteq> ''__proto__''"
  shows "\<exists>nv. coerce h k v = Inr nv \<and>
           (if isValidTransactionKey h k then get_prop k f = nv
            else get_prop k (meta_fields f) = nv)"
  using assms(1,2,3,5)
proof (induction ps arbitrary: f0)
  case Nil
  then show ?case by simp
next
  case (Cons p ps)
  from Cons.prems(1) obtain f1 where
    step: "extra_step h (fst p, snd p) f0 = Inr f1" and rest: "extra_loop h ps f1 = Inr f"
    by (auto split: sum.splits)
  show ?case
  proof (cases "p = (k, v)")
    case True
    with Cons.prems(2) have fresh: "k \<notin> fst ` set ps" by auto
    from Cons.prems(4) have nometa: "''meta'' \<notin> fst ` set ps" by simp
    from True Cons.prems(4) have km: "k \<noteq> ''meta''" by auto
    from True step have "extra_step h (k, v) f0 = Inr f1" by simp
    from extra_step_places [OF this assms(4) assms(6)] obtain nv where
      nv: "coerce h k v = Inr nv"
      and at: "if isValidTransactionKey h k then get_prop k f1 = nv
               else get_prop k (meta_fields f1) = nv"
      by blast
    from extra_loop_top_other [OF rest fresh km] extra_loop_meta_other [OF rest fresh nometa]
      nv at
    show ?thesis by (auto split: if_splits)
  next
    case False
    with Cons.prems(3) have "(k, v) \<in> set ps" by simp
    with Cons.IH [OF rest] Cons.prems(2,4) show ?thesis by simp
  qed
qed

lemma meta_assign_succeeds:
  assumes "meta_plain f" and "k \<noteq> ''__proto__''"
  shows "\<exists>f'. meta_assign k v f = Inr f' \<and> meta_plain f'"
proof (cases "get_prop ''meta'' f")
  case JUndefined
  then show ?thesis
    using assms(2)
    by (simp add: meta_assign_def get_prop_set_prop assign_prop_def meta_plain_def)
next
  case (JObj m)
  then show ?thesis
    using assms(2)
    by (simp add: meta_assign_def get_prop_set_prop assign_prop_def meta_plain_def)
qed (use assms(1) in \<open>simp_all add: meta_plain_def\<close>)

lemma extra_step_succeeds:
  assumes "meta_plain f" and "fst p \<noteq> ''meta''"
    and "\<not> isPrototypeAttribute h (fst p) \<longrightarrow> (\<exists>nv. coerce h (fst p) (snd p) = Inr nv)"
    and "isPrototypeAttribute h ''__proto__''"
  shows "\<exists>f'. extra_step h p f = Inr f' \<and> meta_plain f'"
proof (cases "isPrototypeAttribute h (fst p)")
  case True
  with assms(1) show ?thesis by (simp add: extra_step_def)
next
  case False
  with assms(3) obtain nv where nv: "coerce h (fst p) (snd p) = Inr nv" by blast
  from False assms(4) have np: "fst p \<noteq> ''__proto__''" by auto
  show ?thesis
  proof (cases "isValidTransactionKey h (fst p)")
    case True
    with False nv np assms(1,2) show ?thesis
      by (simp add: extra_step_def assign_prop_def meta_plain_def get_prop_set_prop)
  next
    case valid: False
    with False nv meta_assign_succeeds [OF assms(1) np, of nv] show ?thesis
      by (simp add: extra_step_def)
  qed
qed

lemma extra_loop_succeeds:
  assumes "meta_plain f0" and "''meta'' \<notin> fst ` set ps"
    and "\<forall>p \<in> set ps. \<not> isPrototypeAttribute h (fst p) \<longrightarrow>
           (\<exists>nv. coerce h (fst p) (snd p) = Inr nv)"
    and "isPrototypeAttribute h ''__proto__''"
  shows "\<exists>f. extra_loop h ps f0 = Inr f"
  using assms(1,2,3)
proof (induction ps arbitrary: f0)
  case Nil
  then show ?case by simp
next
  case (Cons p ps)
  from Cons.prems have "fst p \<noteq> ''meta''"
    and "\<not> isPrototypeAttribute h (fst p) \<longrightarrow> (\<exists>nv. coerce h (fst p) (snd p) = Inr nv)"
    by auto
  from extra_step_succeeds [OF Cons.prems(1) this assms(4)] obtain f1 where
    "extra_step h p f0 = Inr f1" "meta_plain f1" by blast
  with Cons.IH [of f1] Cons.prems(2,3) show ?case by auto
qed

lemma date_range_succeeds:
  assumes "truthy s \<longrightarrow> (\<exists>t. parseDateField h s = Inr t)"
    and "truthy e \<longrightarrow> (\<exists>t. parseDateField h e = Inr t)"
  shows "\<exists>f'. date_range h s e f = Inr f'"
  using assms by (auto simp: date_range_def date_bound_def)

lemma date_range_both:
  assumes "date_range h s e f = Inr f'" and "truthy s" and "truthy e"
  shows "\<exists>ds de. parseDateField h s = Inr ds \<and> parseDateField h e = Inr de \<and>
           f' = set_prop ''datetime'' (JObj [(''$gte'', ds), (''$lte'', de)]) f"
  using assms by (auto simp: date_range_def date_bound_def split: sum.splits)

lemma extra_of_keys: "fst ` set (extra_of q) \<subseteq> fst ` set q"
  by (auto simp: extra_of_def)

lemma distinct_extra_of: "distinct (map fst q) \<Longrightarrow> distinct (map fst (extra_of q))"
  by (simp add: extra_of_def distinct_map_filter)

lemma parseQuery_succeeds:
  assumes "helpers_succeed h q book" and "\<not> has_prop ''meta'' q"
    and "isPrototypeAttribute h ''__proto__''" and "account_fields_only h"
  shows "\<exists>f. parseQuery h q book = Inr f"
proof -
  from assms(1) obtain acct where
    a: "parseAccountField h (get_prop ''account'' q) (maxAccountPath book) = Inr acct"
    by (auto simp: helpers_succeed_def)
  from assms(1) date_range_succeeds [of "get_prop ''start_date'' q" h "get_prop ''end_date'' q"
      "spread acct [(''book'', JStr (name book))]"]
  obtain f0 where
    d: "date_range h (get_prop ''start_date'' q) (get_prop ''end_date'' q)
         (spread acct [(''book'', JStr (name book))]) = Inr f0"
    by (auto simp: helpers_succeed_def)
  from initial_keys [OF assms(4) a d] have "\<not> has_prop ''meta'' f0"
    by (auto simp: has_prop_def)
  then have plain: "meta_plain f0"
    by (simp add: meta_plain_def get_prop_absent)
  from assms(2) extra_of_keys [of q] have nometa: "''meta'' \<notin> fst ` set (extra_of q)"
    by (auto simp: has_prop_def)
  from assms(1) have "\<forall>p \<in> set (extra_of q). \<not> isPrototypeAttribute h (fst p) \<longrightarrow>
           (\<exists>nv. coerce h (fst p) (snd p) = Inr nv)"
    by (simp add: helpers_succeed_def)
  from extra_loop_succeeds [OF plain nometa this assms(3)] a d show ?thesis
    by (simp add: parseQuery_def)
qed

text \<open>
  Where the routing of the extra pairs works. Take a query with no extra key \<open>meta\<close> of
  its own, compiled with a prototype guard that rejects \<open>__proto__\<close>. For every extra
  pair (beyond account, start_date and end_date) whose key the guard does not reject, the
  compiled filter holds the value, a string under an identifier column coerced to an
  identifier, at top level under the key when the key is a transaction column, and under
  \<open>meta\<close> and the key otherwise. The compilation returns a filter whenever the helper
  calls it makes succeed.
\<close>

lemma extra_pairs_routed:
  assumes "distinct (map fst q)" and "\<not> has_prop ''meta'' q"
    and "isPrototypeAttribute h ''__proto__''" and "account_fields_only h"
  shows "(\<forall>f k v. parseQuery h q book = Inr f \<and> (k, v) \<in> set (extra_of q)
            \<and> \<not> isPrototypeAttribute h k \<longrightarrow>
          (\<exists>nv. coerce h k v = Inr nv \<and>
             (if isValidTransactionKey h k then get_prop k f = nv
              else get_prop k (meta_fields f) = nv)))
    \<and> (helpers_succeed h q book \<longrightarrow> (\<exists>f. parseQuery h q book = Inr f))"
proof (intro conjI allI impI)
  fix f k v
  assume asm: "parseQuery h q book = Inr f \<and> (k, v) \<in> set (extra_of q)
            \<and> \<not> isPrototypeAttribute h k"
  then obtain acct f0 where l: "extra_loop h (extra_of q) f0 = Inr f"
    by (auto elim: parseQuery_Inr)
  from assms(2) extra_of_keys [of q] have nometa: "''meta'' \<notin> fst ` set (extra_of q)"
    by (auto simp: has_prop_def)
  from asm assms(3) have np: "k \<noteq> ''__proto__''" by auto
  from asm have kv: "(k, v) \<in> set (extra_of q)" and g: "\<not> isPrototypeAttribute h k" by auto
  from extra_loop_places [OF l distinct_extra_of [OF assms(1)] kv g nometa np]
  show "\<exists>nv. coerce h k v = Inr nv \<and>
             (if isValidTransactionKey h k then get_prop k f = nv
              else get_prop k (meta_fields f) = nv)" .
next
  assume "helpers_succeed h q book"
  from parseQuery_succeeds [OF this assms(2,3,4)]
  show "\<exists>f. parseQuery h q book = Inr f" .
qed

lemma spec_guard_proto: "isPrototypeAttribute (spec_helpers date_parse) ''__proto__''"
  by (simp add: spec_helpers_def spec_isPrototypeAttribute_def)

lemma extra_pairs_routed_example:
  "parseQuery (spec_helpers scenario_dates)
     [(''account'', JStr ''Assets''), (''_journal'', JStr ''000000000000000000000010''),
      (''clientId'', JStr ''7'')] my_book =
   Inr [(''book'', JStr ''MyBook''), (''accounts'', JStr ''Assets''),
        (''_journal'', JObjectId 16), (''meta'', JObj [(''clientId'', JStr ''7'')])]
   \<and> get_prop ''_journal''
        [(''book'', JStr ''MyBook''), (''accounts'', JStr ''Assets''),
         (''_journal'', JObjectId 16), (''meta'', JObj [(''clientId'', JStr ''7'')])] =
       JObjectId 16
   \<and> get_prop ''clientId'' (meta_fields
        [(''book'', JStr ''MyBook''), (''accounts'', JStr ''Assets''),
         (''_journal'', JObjectId 16), (''meta'', JObj [(''clientId'', JStr ''7'')])]) =
       JStr ''7''"
proof -
  let ?h = "spec_helpers scenario_dates"
  let ?q = "[(''account'', JStr ''Assets''), (''_journal'', JStr ''000000000000000000000010''),
      (''clientId'', JStr ''7'')]"
  let ?f = "[(''book'', JStr ''MyBook''), (''accounts'', JStr ''Assets''),
        (''_journal'', JObjectId 16), (''meta'', JObj [(''clientId'', JStr ''7'')])]"
  have run: "parseQuery ?h ?q my_book = Inr ?f"
    by (simp add: compile_simps hex_objectId_def hex_digit_def)
  have d: "distinct (map fst ?q)" and m: "\<not> has_prop ''meta'' ?q"
    by (simp_all add: has_prop_def)
  note routed = extra_pairs_routed [OF d m spec_guard_proto spec_account_fields_only,
      where book = my_book]
  have c1: "coerce ?h ''_journal'' (JStr ''000000000000000000000010'') = Inr (JObjectId 16)"
    by (simp add: coerce_def spec_helpers_def spec_isTransactionObjectIdKey_def
        hex_objectId_def hex_digit_def)
  have c2: "coerce ?h ''clientId'' (JStr ''7'') = Inr (JStr ''7'')"
    by (simp add: coerce_def spec_helpers_def spec_isTransactionObjectIdKey_def)
  have v1: "isValidTransactionKey ?h ''_journal''" and v2: "\<not> isValidTransactionKey ?h ''clientId''"
    and g1: "\<not> isPrototypeAttribute ?h ''_journal''" and g2: "\<not> isPrototypeAttribute ?h ''clientId''"
    by (simp_all add: spec_helpers_def spec_isValidTransactionKey_def transaction_columns_def
        spec_isPrototypeAttribute_def)
  have e1: "(''_journal'', JStr ''000000000000000000000010'') \<in> set (extra_of ?q)"
    and e2: "(''clientId'', JStr ''7'') \<in> set (extra_of ?q)"
    by (simp_all add: extra_of_def)
  from routed run e1 g1 c1 v1
  have "get_prop ''_journal'' ?f = JObjectId 16"
    by (metis Inl_Inr_False sum.inject(2))
  moreover from routed run e2 g2 c2 v2
  have "get_prop ''clientId'' (meta_fields ?f) = JStr ''7''"
    by (metis Inl_Inr_False sum.inject(2))
  ultimately show ?thesis using run by simp
qed

text \<open>
  Claim C2 says that every extra pair is placed at top level when its key is a transaction
  column and is nested under \<open>meta\<close> otherwise. \<open>meta\<close> is itself a transaction column,
  and neither \<open>meta\<close> nor \<open>clientId\<close> is rejected by the guard. For the query
  \<open>{meta: "foo", clientId: "7"}\<close> the string is placed at top level under \<open>meta\<close> and
  the assignment of \<open>meta.clientId\<close> into it throws a TypeError; for
  \<open>{clientId: "7", meta: "foo"}\<close> the pair is nested first and the assignment of the
  top level \<open>meta\<close> then replaces the object: the compiled filter has no
  \<open>meta.clientId\<close>.
\<close>

theorem extra_key_meta_breaks_nesting:
  "isValidTransactionKey (spec_helpers scenario_dates) ''meta''
   \<and> \<not> isValidTransactionKey (spec_helpers scenario_dates) ''clientId''
   \<and> \<not> isPrototypeAttribute (spec_helpers scenario_dates) ''meta''
   \<and> \<not> isPrototypeAttribute (spec_helpers scenario_dates) ''clientId''
   \<and> parseQuery (spec_helpers scenario_dates)
       [(''meta'', JStr ''foo''), (''clientId'', JStr ''7'')] my_book = Inl TypeError
   \<and> parseQuery (spec_helpers scenario_dates)
       [(''clientId'', JStr ''7''), (''meta'', JStr ''foo'')] my_book =
     Inr [(''book'', JStr ''MyBook''), (''meta'', JStr ''foo'')]
   \<and> get_prop ''clientId''
       (meta_fields [(''book'', JStr ''MyBook''), (''meta'', JStr ''foo'')]) = JUndefined"
  by (simp add: compile_simps meta_fields_def)

text \<open>
  Where the date range works. Take a query whose start_date and end_date are both truthy
  and that has no extra key \<open>datetime\<close>. A compiled filter constrains \<open>datetime\<close> by
  exactly a \<open>$gte\<close> bound, the start date as the date helper reads it, and a \<open>$lte\<close>
  bound, the end date as the date helper reads it; and the compilation returns a filter
  whenever the helper calls succeed and the query has no extra key \<open>meta\<close>.
\<close>

lemma date_bounds_inclusive:
  assumes "truthy (get_prop ''start_date'' q)" and "truthy (get_prop ''end_date'' q)"
    and "\<not> has_prop ''datetime'' q"
  shows "(\<forall>f. parseQuery h q book = Inr f \<longrightarrow>
          (\<exists>ds de. parseDateField h (get_prop ''start_date'' q) = Inr ds
             \<and> parseDateField h (get_prop ''end_date'' q) = Inr de
             \<and> get_prop ''datetime'' f = JObj [(''$gte'', ds), (''$lte'', de)]))
    \<and> (helpers_succeed h q book \<and> \<not> has_prop ''meta'' q
         \<and> isPrototypeAttribute h ''__proto__'' \<and> account_fields_only h \<longrightarrow>
       (\<exists>f. parseQuery h q book = Inr f))"
proof (intro conjI allI impI)
  fix f
  assume "parseQuery h q book = Inr f"
  then obtain acct f0 where
    d: "date_range h (get_prop ''start_date'' q) (get_prop ''end_date'' q)
         (spread acct [(''book'', JStr (name book))]) = Inr f0"
    and l: "extra_loop h (extra_of q) f0 = Inr f"
    by (auto elim: parseQuery_Inr)
  from date_range_both [OF d assms(1,2)] obtain ds de where
    ds: "parseDateField h (get_prop ''start_date'' q) = Inr ds"
    and de: "parseDateField h (get_prop ''end_date'' q) = Inr de"
    and f0: "get_prop ''datetime'' f0 = JObj [(''$gte'', ds), (''$lte'', de)]"
    by (auto simp: get_prop_set_prop)
  from assms(3) extra_of_keys [of q] have "''datetime'' \<notin> fst ` set (extra_of q)"
    by (auto simp: has_prop_def)
  from extra_loop_top_other [OF l this] f0
  have "get_prop ''datetime'' f = JObj [(''$gte'', ds), (''$lte'', de)]" by simp
  with ds de
  show "\<exists>ds de. parseDateField h (get_prop ''start_date'' q) = Inr ds
             \<and> parseDateField h (get_prop ''end_date'' q) = Inr de
             \<and> get_prop ''datetime'' f = JObj [(''$gte'', ds), (''$lte'', de)]"
    by blast
next
  assume "helpers_succeed h q book \<and> \<not> has_prop ''meta'' q
         \<and> isPrototypeAttribute h ''__proto__'' \<and> account_fields_only h"
  then show "\<exists>f. parseQuery h q book = Inr f"
    by (auto intro: parseQuery_succeeds)
qed

lemma date_bounds_inclusive_example:
  "parseQuery (spec_helpers scenario_dates)
     [(''account'', JStr ''Assets''), (''start_date'', JStr ''2024-05-01''),
      (''end_date'', JNum (Finite 1719792000000))] my_book =
   Inr [(''book'', JStr ''MyBook''), (''accounts'', JStr ''Assets''),
        (''datetime'', JObj [(''$gte'', JDate 1714521600000), (''$lte'', JDate 1719792000000)])]
   \<and> get_prop ''datetime''
        [(''book'', JStr ''MyBook''), (''accounts'', JStr ''Assets''),
         (''datetime'', JObj [(''$gte'', JDate 1714521600000), (''$lte'', JDate 1719792000000)])] =
       JObj [(''$gte'', JDate 1714521600000), (''$lte'', JDate 1719792000000)]
   \<and> parseQuery (spec_helpers scenario_dates)
     [(''start_date'', JDate 1714521600000), (''end_date'', JStr ''2024-07-01'')] my_book =
   Inr [(''book'', JStr ''MyBook''),
        (''datetime'', JObj [(''$gte'', JDate 1714521600000), (''$lte'', JDate 1719792000000)])]"
proof -
  let ?h = "spec_helpers scenario_dates"
  let ?q = "[(''account'', JStr ''Assets''), (''start_date'', JStr ''2024-05-01''),
      (''end_date'', JNum (Finite 1719792000000))]"
  let ?f = "[(''book'', JStr ''MyBook''), (''accounts'', JStr ''Assets''),
        (''datetime'', JObj [(''$gte'', JDate 1714521600000), (''$lte'', JDate 1719792000000)])]"
  have run: "parseQuery ?h ?q my_book = Inr ?f"
    by (simp add: compile_simps)
  have run2: "parseQuery ?h
     [(''start_date'', JDate 1714521600000), (''end_date'', JStr ''2024-07-01'')] my_book =
     Inr [(''book'', JStr ''MyBook''),
        (''datetime'', JObj [(''$gte'', JDate 1714521600000), (''$lte'', JDate 1719792000000)])]"
    by (simp add: compile_simps)
  have s: "truthy (get_prop ''start_date'' ?q)" and e: "truthy (get_prop ''end_date'' ?q)"
    and d: "\<not> has_prop ''datetime'' ?q"
    by (simp_all add: get_prop_def has_prop_def)
  have ps: "parseDateField ?h (get_prop ''start_date'' ?q) = Inr (JDate 1714521600000)"
    and pe: "parseDateField ?h (get_prop ''end_date'' ?q) = Inr (JDate 1719792000000)"
    by (simp_all add: get_prop_def spec_helpers_def scenario_dates_def)
  from date_bounds_inclusive [OF s e d, of ?h my_book] run ps pe
  have "get_prop ''datetime'' ?f =
      JObj [(''$gte'', JDate 1714521600000), (''$lte'', JDate 1719792000000)]"
    by (metis Inl_Inr_False sum.inject(2))
  with run run2 show ?thesis by simp
qed

text \<open>A date alone gives one bound: the lower one for a start date, the upper one for an
  end date.\<close>

lemma single_date_bound:
  "parseQuery (spec_helpers scenario_dates) [(''start_date'', JNum (Finite 5))] my_book =
     Inr [(''book'', JStr ''MyBook''), (''datetime'', JObj [(''$gte'', JDate 5)])]"
  "parseQuery (spec_helpers scenario_dates) [(''end_date'', JNum (Finite 5))] my_book =
     Inr [(''book'', JStr ''MyBook''), (''datetime'', JObj [(''$lte'', JDate 5)])]"
  by (simp_all add: compile_simps)

text \<open>
  Claim C4 says that start_date and end_date each accept a numeric epoch in milliseconds
  and that with both present the filter has a \<open>$gte\<close> and a \<open>$lte\<close> bound. The epoch 0
  is a date, which the date helper reads as such; the tests of lines 36 and 39 take the
  number 0 for an absent date. For the query \<open>{start_date: 0, end_date: 1000}\<close> the
  compiled filter has the upper bound only, and for \<open>{start_date: 0}\<close> it has no bound
  on \<open>datetime\<close> at all.
\<close>

theorem start_date_epoch_zero_unbounded:
  "spec_parseDateField scenario_dates (JNum (Finite 0)) = Inr (JDate 0)
   \<and> parseQuery (spec_helpers scenario_dates)
     [(''start_date'', JNum (Finite 0)), (''end_date'', JNum (Finite 1000))] my_book =
   Inr [(''book'', JStr ''MyBook''), (''datetime'', JObj [(''$lte'', JDate 1000)])]
   \<and> parseQuery (spec_helpers scenario_dates) [(''start_date'', JNum (Finite 0))] my_book =
   Inr [(''book'', JStr ''MyBook'')]"
  by (simp add: compile_simps)

text \<open>An extra key \<open>datetime\<close> is a transaction column: it replaces the range.\<close>

lemma datetime_key_replaces_range:
  "parseQuery (spec_helpers scenario_dates)
     [(''start_date'', JNum (Finite 1)), (''end_date'', JNum (Finite 2)),
      (''datetime'', JNum (Finite 5))] my_book =
   Inr [(''book'', JStr ''MyBook''), (''datetime'', JNum (Finite 5))]"
  by (simp add: compile_simps)

section \<open>Properties of the ledger\<close>

lemma truthy_has_prop: "truthy (get_prop k q) \<Longrightarrow> has_prop k q"
  by (rule ccontr) (simp add: get_prop_absent)

lemma has_prop_delete_prop: "has_prop k (delete_prop k' q) \<longleftrightarrow> k \<noteq> k' \<and> has_prop k q"
  by (auto simp: has_prop_def delete_prop_def)

lemma query_after_ledger_changed:
  assumes "truthy (get_prop ''perPage'' q)"
  shows "query_after_ledger q \<noteq> q"
proof
  assume "query_after_ledger q = q"
  then have "has_prop ''perPage'' (delete_prop ''page'' (delete_prop ''perPage'' q))"
    using assms truthy_has_prop [OF assms] by (simp add: query_after_ledger_def)
  then show False by (simp add: has_prop_delete_prop)
qed

text \<open>
  Claim C10. When \<open>ledger\<close> is called with a truthy \<open>perPage\<close>, the query object is
  left without its properties \<open>perPage\<close> and \<open>page\<close>, so it differs from the argument,
  and the filter is compiled from the query after the deletion: an error of the
  compilation of that query is the outcome of the call. When \<open>perPage\<close> is absent or
  falsy (\<open>0\<close>), the query object is left as it was, pagination properties included.
\<close>

theorem ledger_deletes_pagination:
  "fst (Book_ledger h matches book q txs) =
     (if truthy (get_prop ''perPage'' q)
      then delete_prop ''page'' (delete_prop ''perPage'' q) else q)
   \<and> (truthy (get_prop ''perPage'' q) \<longrightarrow>
        fst (Book_ledger h matches book q txs) \<noteq> q
        \<and> \<not> has_prop ''perPage'' (fst (Book_ledger h matches book q txs))
        \<and> \<not> has_prop ''page'' (fst (Book_ledger h matches book q txs)))
   \<and> (\<not> truthy (get_prop ''perPage'' q) \<longrightarrow> fst (Book_ledger h matches book q txs) = q)
   \<and> (\<forall>paging e. pagination q = Inr paging
          \<and> parseQuery h (fst (Book_ledger h matches book q txs)) book = Inl e \<longrightarrow>
        snd (Book_ledger h matches book q txs) = Inl e)"
proof -
  have q': "fst (Book_ledger h matches book q txs) = query_after_ledger q"
    by (simp add: Book_ledger_def Let_def)
  have "snd (Book_ledger h matches book q txs) = Inl e"
    if "pagination q = Inr paging" "parseQuery h (query_after_ledger q) book = Inl e"
    for paging e
    using that by (simp add: Book_ledger_def Let_def)
  then show ?thesis
    unfolding q' using query_after_ledger_changed [of q]
    by (auto simp: query_after_ledger_def has_prop_delete_prop)
qed

theorem ledger_deletes_pagination_witness:
  "fst (Book_ledger (spec_helpers scenario_dates) (\<lambda>f t. True) my_book
         [(''account'', JStr ''Assets''), (''perPage'', JNum (Finite 10)),
          (''page'', JNum (Finite 2))] []) =
     [(''account'', JStr ''Assets'')]
   \<and> fst (Book_ledger (spec_helpers scenario_dates) (\<lambda>f t. True) my_book
         [(''account'', JStr ''Assets''), (''page'', JNum (Finite 2))] []) =
     [(''account'', JStr ''Assets''), (''page'', JNum (Finite 2))]"
proof -
  let ?h = "spec_helpers scenario_dates"
  let ?q1 = "[(''account'', JStr ''Assets''), (''perPage'', JNum (Finite 10)),
          (''page'', JNum (Finite 2))]"
  let ?q2 = "[(''account'', JStr ''Assets''), (''page'', JNum (Finite 2))]"
  from ledger_deletes_pagination [of ?h "\<lambda>f t. True" my_book ?q1 "[]"]
  have "fst (Book_ledger ?h (\<lambda>f t. True) my_book ?q1 []) = [(''account'', JStr ''Assets'')]"
    by (simp add: get_prop_def delete_prop_def)
  moreover from ledger_deletes_pagination [of ?h "\<lambda>f t. True" my_book ?q2 "[]"]
  have "fst (Book_ledger ?h (\<lambda>f t. True) my_book ?q2 []) = ?q2"
    by (simp add: get_prop_def)
  ultimately show ?thesis by simp
qed

lemma skip_limit_nat:
  "0 < l \<Longrightarrow> skip_limit (real s) (real l) xs = Inr (take l (drop s xs))"
  by (simp add: skip_limit_def)

lemma ledger_total_count:
  assumes "set rs \<subseteq> set (filter (matches f) txs)"
  shows "ledger_total (countDocuments matches f txs) rs = length (filter (matches f) txs)"
proof (cases "filter (matches f) txs = []")
  case True
  with assms have "rs = []" by simp
  with True show ?thesis by (simp add: ledger_total_def countDocuments_def)
next
  case False
  then show ?thesis by (simp add: ledger_total_def countDocuments_def)
qed

lemma set_find_sorted: "set (find_sorted matches f txs) = set (filter (matches f) txs)"
  by (simp add: find_sorted_def)

lemma page_index_nat:
  "page_index (JNum (Finite (real page))) = Inr (real (nat (max 0 (int page - 1))))"
proof (cases page)
  case 0
  then show ?thesis by (simp add: page_index_def)
next
  case (Suc k)
  then have "nat (max 0 (int page - 1)) = k" by simp
  moreover have "real page - 1 = real k" using Suc by simp
  ultimately show ?thesis using Suc by (simp add: page_index_def)
qed

text \<open>
  Claim C5, as amended. For every ledger query whose \<open>perPage\<close> is a positive whole
  number and whose \<open>page\<close> is absent or a whole number from 0 on, the results are the
  documents of the filter, latest first, without the first \<open>max(0, page - 1) * perPage\<close>
  and cut to \<open>perPage\<close> documents; the total is the number of all documents that match
  the filter compiled from the query without \<open>perPage\<close> and \<open>page\<close>.
\<close>

theorem ledger_pages:
  assumes "get_prop ''perPage'' q = JNum (Finite (real perPage))" and "0 < perPage"
    and "get_prop ''page'' q = JUndefined \<and> page = 0
       \<or> get_prop ''page'' q = JNum (Finite (real page))"
    and "parseQuery h (delete_prop ''page'' (delete_prop ''perPage'' q)) book = Inr f"
  shows "snd (Book_ledger h matches book q txs) =
     Inr \<lparr>results = take perPage (drop (nat (max 0 (int page - 1)) * perPage)
                        (find_sorted matches f txs)),
          total = length (filter (matches f) txs)\<rparr>"
proof -
  let ?skip = "nat (max 0 (int page - 1)) * perPage"
  let ?rs = "take perPage (drop ?skip (find_sorted matches f txs))"
  have pp: "truthy (get_prop ''perPage'' q)" using assms(1,2) by simp
  have idx: "page_index (get_prop ''page'' q) = Inr (real (nat (max 0 (int page - 1))))"
    using assms(3) page_index_nat [of page] by (auto simp: page_index_def)
  have paging: "pagination q = Inr (Some (real ?skip, real perPage))"
    using pp assms(1) idx by (simp add: pagination_def)
  have q': "query_after_ledger q = delete_prop ''page'' (delete_prop ''perPage'' q)"
    using pp by (simp add: query_after_ledger_def)
  have sl: "skip_limit (real ?skip) (real perPage) (find_sorted matches f txs) = Inr ?rs"
    by (rule skip_limit_nat [OF assms(2)])
  have "set ?rs \<subseteq> set (find_sorted matches f txs)"
    by (auto dest: in_set_takeD in_set_dropD)
  then have "set ?rs \<subseteq> set (filter (matches f) txs)"
    by (simp only: set_find_sorted)
  from ledger_total_count [where matches = matches and f = f, OF this]
  have total: "ledger_total (countDocuments matches f txs) ?rs =
      length (filter (matches f) txs)" .
  show ?thesis
    unfolding Book_ledger_def Let_def q' paging
    by (simp only: snd_conv sum.case assms(4) option.case prod.case sl total)
qed

lemmas example_simps =
  example_matches_def posting_def find_sorted_def sort_key_def

theorem ledger_pages_witness:
  "snd (Book_ledger (spec_helpers scenario_dates) example_matches my_book
     [(''perPage'', JNum (Finite 2)), (''page'', JNum (Finite 2))]
     [posting 1 10 [''Assets''] 100 0, posting 2 20 [''Income''] 0 100,
      posting 3 30 [''Assets''] 5 0]) =
   Inr \<lparr>results = [posting 1 10 [''Assets''] 100 0], total = 3\<rparr>"
proof -
  let ?h = "spec_helpers scenario_dates"
  let ?q = "[(''perPage'', JNum (Finite 2)), (''page'', JNum (Finite 2))]"
  let ?txs = "[posting 1 10 [''Assets''] 100 0, posting 2 20 [''Income''] 0 100,
      posting 3 30 [''Assets''] 5 0]"
  have pp: "get_prop ''perPage'' ?q = JNum (Finite (real 2))"
    and pg: "get_prop ''page'' ?q = JUndefined \<and> (2::nat) = 0
       \<or> get_prop ''page'' ?q = JNum (Finite (real 2))"
    by (simp_all add: get_prop_def)
  have f: "parseQuery ?h (delete_prop ''page'' (delete_prop ''perPage'' ?q)) my_book =
      Inr [(''book'', JStr ''MyBook'')]"
    by (simp add: compile_simps delete_prop_def)
  have sorted: "find_sorted example_matches [(''book'', JStr ''MyBook'')] ?txs =
      [posting 3 30 [''Assets''] 5 0, posting 2 20 [''Income''] 0 100,
       posting 1 10 [''Assets''] 100 0]"
    by (simp add: example_simps get_prop_def)
  have count: "filter (example_matches [(''book'', JStr ''MyBook'')]) ?txs = ?txs"
    by (simp add: example_simps get_prop_def)
  from ledger_pages [OF pp _ pg f, of example_matches ?txs] sorted count
  show ?thesis by simp
qed

text \<open>
  Counterexample to claim C5 as stated: with \<open>page\<close> at -1 and \<open>perPage\<close> at 10 the
  skip is \<open>(page - 1) * perPage = -20\<close>, not \<open>max(0, page - 1) * perPage = 0\<close>, and the
  store refuses the query.
\<close>

theorem ledger_negative_page_counterexample:
  "pagination [(''perPage'', JNum (Finite 10)), (''page'', JNum (Finite (- 1)))] =
     Inr (Some (- 20, 10))
   \<and> max 0 (- 1 - 1) * 10 = (0::real)
   \<and> snd (Book_ledger (spec_helpers scenario_dates) example_matches my_book
       [(''perPage'', JNum (Finite 10)), (''page'', JNum (Finite (- 1)))]
       [posting 1 10 [''Assets''] 100 0]) = Inl StoreError"
  by (simp add: pagination_def page_index_def get_prop_def Book_ledger_def
      query_after_ledger_def delete_prop_def compile_simps skip_limit_def)

section \<open>Properties of the balance\<close>

lemma toFixed_digits_nat: "p \<le> 100 \<Longrightarrow> toFixed_digits (Finite (real p)) = Inr p"
  by simp

lemma snapshot_balance_eq: "zero_neutral a \<Longrightarrow> snapshot_balance a snap = base_balance snap"
  by (cases snap) (simp_all add: snapshot_balance_def base_balance_def zero_neutral_def)

lemma aggregate_None: "aggregate a matches f txs = None \<longleftrightarrow> filter (matches f) txs = []"
  by (simp add: aggregate_def Let_def)

lemma aggregate_Some:
  "aggregate a matches f txs = Some g \<Longrightarrow>
     filter (matches f) txs \<noteq> []
     \<and> agg_balance g = credit_minus_debit a (filter (matches f) txs)
     \<and> agg_count g = length (filter (matches f) txs)
     \<and> agg_lastTransactionId g = tx_id (last (filter (matches f) txs))
     \<and> agg_lastTimestamp g = tx_timestamp (last (filter (matches f) txs))"
  by (auto simp: aggregate_def Let_def credit_minus_debit_def split: if_splits)

lemma Book_balance_empty:
  assumes "parseQuery h q book = Inr pq" and "lookup_snapshot best book q pq = Inr (acct, snap)"
    and "delta matches snap pq txs = []"
  shows "Book_balance a h matches best book now q txs =
     Inr (\<lparr>balance = snapshot_balance a snap, notes' = 0\<rparr>, None)"
proof -
  from assms(3) have "aggregate a matches (live_filter snap pq) txs = None"
    by (simp add: aggregate_None delta_def)
  with assms(1,2) show ?thesis
    by (simp add: Book_balance_def)
qed

lemma Book_balance_delta:
  assumes "parseQuery h q book = Inr pq" and "lookup_snapshot best book q pq = Inr (acct, snap)"
    and "delta matches snap pq txs \<noteq> []" and "toFixed_digits (precision book) = Inr d"
  shows "Book_balance a h matches best book now q txs =
     Inr (\<lparr>balance = js_plus a (snapshot_balance a snap)
                (toFixed_parseFloat a d (credit_minus_debit a (delta matches snap pq txs))),
            notes' = length (delta matches snap pq txs)\<rparr>,
          if needToDoBalanceSnapshot a book now snap
          then Some \<lparr>req_book = name book, req_account = acct,
                 req_meta = get_prop ''meta'' (live_filter snap pq),
                 req_transaction = tx_id (last (delta matches snap pq txs)),
                 req_timestamp = tx_timestamp (last (delta matches snap pq txs)),
                 req_balance = js_plus a (snapshot_balance a snap)
                   (toFixed_parseFloat a d (credit_minus_debit a (delta matches snap pq txs))),
                 req_expireInSec = js_times a (balanceSnapshotSec book) (Finite 2)\<rparr>
          else None)"
proof -
  from assms(3) obtain g where g: "aggregate a matches (live_filter snap pq) txs = Some g"
    using aggregate_None [of a matches "live_filter snap pq" txs] by (auto simp: delta_def)
  from aggregate_Some [OF g] have
    "agg_balance g = credit_minus_debit a (delta matches snap pq txs)"
    "agg_count g = length (delta matches snap pq txs)"
    "agg_lastTransactionId g = tx_id (last (delta matches snap pq txs))"
    "agg_lastTimestamp g = tx_timestamp (last (delta matches snap pq txs))"
    by (simp_all add: delta_def)
  with assms(1,2,4) g show ?thesis
    by (simp add: Book_balance_def Let_def)
qed

lemma Book_balance_range_error:
  assumes "parseQuery h q book = Inr pq" and "lookup_snapshot best book q pq = Inr (acct, snap)"
    and "delta matches snap pq txs \<noteq> []" and "toFixed_digits (precision book) = Inl e"
  shows "Book_balance a h matches best book now q txs = Inl e"
proof -
  from assms(3) obtain g where g: "aggregate a matches (live_filter snap pq) txs = Some g"
    using aggregate_None [of a matches "live_filter snap pq" txs] by (auto simp: delta_def)
  with assms(1,2,4) show ?thesis
    by (simp add: Book_balance_def)
qed

text \<open>
  Claim C1. For every balance query whose filter compiles, with \<open>snap\<close> the snapshot
  that the lookup returns (none when snapshots are disabled), the delta the transactions
  that match the live filter, and number operations for which adding 0 changes nothing:
  a returned balance is the balance of the snapshot (0 if none) plus
  \<open>parseFloat(x.toFixed(precision))\<close> of the sum \<open>x\<close> of credit minus debit over the delta,
  nothing being added for an empty delta, and the notes are the number of transactions
  of the delta; the query returns so for every precision from 0 to 100. With no snapshot
  and an empty delta the result is balance 0 and notes 0; with a snapshot and an empty
  delta it is the balance of the snapshot and notes 0.
\<close>

theorem balance_is_snapshot_plus_delta:
  assumes "parseQuery h q book = Inr pq"
    and "lookup_snapshot best book q pq = Inr (acct, snap)"
    and "zero_neutral a"
  shows "(\<forall>r w. Book_balance a h matches best book now q txs = Inr (r, w) \<longrightarrow>
            notes' r = length (delta matches snap pq txs)
            \<and> (if delta matches snap pq txs = [] then balance r = base_balance snap
               else (\<exists>d. toFixed_digits (precision book) = Inr d
                      \<and> balance r = js_plus a (base_balance snap)
                          (toFixed_parseFloat a d
                             (credit_minus_debit a (delta matches snap pq txs))))))
    \<and> (\<forall>p. precision book = Finite (real p) \<and> p \<le> 100 \<longrightarrow>
          (\<exists>w. Book_balance a h matches best book now q txs =
             Inr (\<lparr>balance =
                     (if delta matches snap pq txs = [] then base_balance snap
                      else js_plus a (base_balance snap)
                             (toFixed_parseFloat a p
                                (credit_minus_debit a (delta matches snap pq txs)))),
                   notes' = length (delta matches snap pq txs)\<rparr>, w)))
    \<and> (snap = None \<and> delta matches snap pq txs = [] \<longrightarrow>
          Book_balance a h matches best book now q txs =
            Inr (\<lparr>balance = Finite 0, notes' = 0\<rparr>, None))
    \<and> (\<forall>s. snap = Some s \<and> delta matches snap pq txs = [] \<longrightarrow>
          Book_balance a h matches best book now q txs =
            Inr (\<lparr>balance = snap_balance s, notes' = 0\<rparr>, None))"
proof (intro conjI allI impI)
  fix r w
  assume ret: "Book_balance a h matches best book now q txs = Inr (r, w)"
  show "notes' r = length (delta matches snap pq txs)"
  proof (cases "delta matches snap pq txs = []")
    case True
    from Book_balance_empty [OF assms(1,2) True, of a now] ret show ?thesis
      using True by auto
  next
    case False
    show ?thesis
    proof (cases "toFixed_digits (precision book)")
      case (Inl e)
      from Book_balance_range_error [OF assms(1,2) False Inl, of a now] ret show ?thesis
        by simp
    next
      case (Inr d)
      from Book_balance_delta [OF assms(1,2) False Inr, of a now] ret show ?thesis by auto
    qed
  qed
  show "if delta matches snap pq txs = [] then balance r = base_balance snap
        else (\<exists>d. toFixed_digits (precision book) = Inr d
                \<and> balance r = js_plus a (base_balance snap)
                    (toFixed_parseFloat a d
                       (credit_minus_debit a (delta matches snap pq txs))))"
  proof (cases "delta matches snap pq txs = []")
    case True
    from Book_balance_empty [OF assms(1,2) True, of a now] ret
    have "balance r = base_balance snap"
      by (auto simp: snapshot_balance_eq [OF assms(3)])
    with True show ?thesis by simp
  next
    case False
    show ?thesis
    proof (cases "toFixed_digits (precision book)")
      case (Inl e)
      from Book_balance_range_error [OF assms(1,2) False Inl, of a now] ret show ?thesis
        by simp
    next
      case (Inr d)
      from Book_balance_delta [OF assms(1,2) False Inr, of a now] ret
      have "balance r = js_plus a (base_balance snap)
              (toFixed_parseFloat a d (credit_minus_debit a (delta matches snap pq txs)))"
        by (auto simp: snapshot_balance_eq [OF assms(3)])
      with Inr False show ?thesis by simp
    qed
  qed
next
  fix p
  assume p: "precision book = Finite (real p) \<and> p \<le> 100"
  then have d: "toFixed_digits (precision book) = Inr p"
    by (simp add: toFixed_digits_nat)
  show "\<exists>w. Book_balance a h matches best book now q txs =
             Inr (\<lparr>balance =
                     (if delta matches snap pq txs = [] then base_balance snap
                      else js_plus a (base_balance snap)
                             (toFixed_parseFloat a p
                                (credit_minus_debit a (delta matches snap pq txs)))),
                   notes' = length (delta matches snap pq txs)\<rparr>, w)"
  proof (cases "delta matches snap pq txs = []")
    case True
    from Book_balance_empty [OF assms(1,2) True, of a now] True show ?thesis
      by (simp add: snapshot_balance_eq [OF assms(3)])
  next
    case False
    from Book_balance_delta [OF assms(1,2) False d, of a now] False show ?thesis
      by (simp add: snapshot_balance_eq [OF assms(3)])
  qed
next
  assume "snap = None \<and> delta matches snap pq txs = []"
  then have e: "delta matches snap pq txs = []" and n: "snap = None" by auto
  from Book_balance_empty [OF assms(1,2) e, of a now] n
  show "Book_balance a h matches best book now q txs =
      Inr (\<lparr>balance = Finite 0, notes' = 0\<rparr>, None)"
    by (simp add: snapshot_balance_def)
next
  fix s
  assume "snap = Some s \<and> delta matches snap pq txs = []"
  then have e: "delta matches snap pq txs = []" and n: "snap = Some s" by auto
  from Book_balance_empty [OF assms(1,2) e, of a now] n
  show "Book_balance a h matches best book now q txs =
      Inr (\<lparr>balance = snap_balance s, notes' = 0\<rparr>, None)"
    by (simp add: snapshot_balance_eq [OF assms(3)] base_balance_def)
qed

lemma exact_zero_neutral: "zero_neutral exact_arith"
  unfolding zero_neutral_def exact_arith_def
proof (intro allI)
  fix x
  show "js_plus \<lparr>js_plus = exact_plus, js_times = exact_times,
      store_subtract = (\<lambda>x y. exact_plus x (num_negate y)),
      store_sum = (\<lambda>xs. foldl exact_plus (Finite 0) xs),
      toFixed_parseFloat = exact_toFixed\<rparr> (Finite 0) x = x"
    by (cases x) simp_all
qed

lemmas balance_simps =
  Book_balance_def lookup_snapshot_def accountForBalanceSnapshot_def live_filter_def
  aggregate_def needToDoBalanceSnapshot_def older_than_def snapshot_balance_def
  round_fixed_def exact_arith_def spec_getBestSnapshot_def book60_def assets_snapshot_def
  sale_def delta_def base_balance_def credit_minus_debit_def

lemma assets_query_compiles:
  "parseQuery (spec_helpers scenario_dates) [(''account'', JStr ''Assets'')] book60 =
     Inr [(''book'', JStr ''MyBook''), (''accounts'', JStr ''Assets'')]"
  by (simp add: compile_simps book60_def)

lemma assets_lookup:
  "lookup_snapshot (spec_getBestSnapshot snaps) book60 [(''account'', JStr ''Assets'')]
     [(''book'', JStr ''MyBook''), (''accounts'', JStr ''Assets'')] =
   Inr (JStr ''Assets'', spec_getBestSnapshot snaps (JStr ''MyBook'') (JStr ''Assets'') JUndefined)"
  by (simp add: lookup_snapshot_def accountForBalanceSnapshot_def book60_def get_prop_def)

lemma assets_best:
  "spec_getBestSnapshot [assets_snapshot] (JStr ''MyBook'') (JStr ''Assets'') JUndefined =
     Some assets_snapshot"
  "spec_getBestSnapshot [] (JStr ''MyBook'') (JStr ''Assets'') JUndefined = None"
  by (simp_all add: spec_getBestSnapshot_def assets_snapshot_def)

lemma sale_delta:
  "delta example_matches None [(''book'', JStr ''MyBook''), (''accounts'', JStr ''Assets'')] sale =
     [posting 1 10 [''Assets'', ''Assets:Cash''] (25663 / 256) 0]"
  "delta example_matches (Some assets_snapshot)
     [(''book'', JStr ''MyBook''), (''accounts'', JStr ''Assets'')] sale = []"
  "delta example_matches (Some assets_snapshot)
     [(''book'', JStr ''MyBook''), (''accounts'', JStr ''Assets'')]
     (sale @ [posting 3 20 [''Assets''] 5 0]) = [posting 3 20 [''Assets''] 5 0]"
  by (simp_all add: delta_def live_filter_def sale_def example_matches_def posting_def
      get_prop_def assets_snapshot_def)

text \<open>The rounding of the example: \<open>-100.24609375\<close> at two digits is \<open>-100.25\<close>.\<close>

lemma sale_rounded:
  "toFixed_parseFloat exact_arith 2
     (credit_minus_debit exact_arith [posting 1 10 [''Assets'', ''Assets:Cash''] (25663 / 256) 0]) =
   Finite (- (401 / 4))"
  by (simp add: exact_arith_def credit_minus_debit_def posting_def round_fixed_def)

theorem balance_is_snapshot_plus_delta_witness:
  "(\<exists>w. Book_balance exact_arith (spec_helpers scenario_dates) example_matches
     (spec_getBestSnapshot []) book60 2000 [(''account'', JStr ''Assets'')] sale =
   Inr (\<lparr>balance = Finite (- (401 / 4)), notes' = 1\<rparr>, w))
   \<and> Book_balance exact_arith (spec_helpers scenario_dates) example_matches
     (spec_getBestSnapshot [assets_snapshot]) book60 2000 [(''account'', JStr ''Assets'')] sale =
   Inr (\<lparr>balance = Finite (- (401 / 4)), notes' = 0\<rparr>, None)"
proof -
  note first = balance_is_snapshot_plus_delta [OF assets_query_compiles
      assets_lookup [of "[]"] exact_zero_neutral,
      where matches = example_matches and now = 2000 and txs = sale]
  note second = balance_is_snapshot_plus_delta [OF assets_query_compiles
      assets_lookup [of "[assets_snapshot]"] exact_zero_neutral,
      where matches = example_matches and now = 2000 and txs = sale]
  have prec: "precision book60 = Finite (real 2) \<and> (2::nat) \<le> 100"
    by (simp add: book60_def)
  have val: "js_plus exact_arith (base_balance None)
      (toFixed_parseFloat exact_arith 2 (credit_minus_debit exact_arith
         [posting 1 10 [''Assets'', ''Assets:Cash''] (25663 / 256) 0])) =
      Finite (- (401 / 4))"
    unfolding sale_rounded by (simp add: exact_arith_def base_balance_def)
  let ?pq = "[(''book'', JStr ''MyBook''), (''accounts'', JStr ''Assets'')]"
  from first prec have "\<exists>w. Book_balance exact_arith (spec_helpers scenario_dates)
      example_matches (spec_getBestSnapshot []) book60 2000
      [(''account'', JStr ''Assets'')] sale =
      Inr (\<lparr>balance =
              (if delta example_matches
                    (spec_getBestSnapshot [] (JStr ''MyBook'') (JStr ''Assets'') JUndefined)
                    ?pq sale = []
               then base_balance
                    (spec_getBestSnapshot [] (JStr ''MyBook'') (JStr ''Assets'') JUndefined)
               else js_plus exact_arith
                    (base_balance
                       (spec_getBestSnapshot [] (JStr ''MyBook'') (JStr ''Assets'') JUndefined))
                    (toFixed_parseFloat exact_arith 2
                       (credit_minus_debit exact_arith
                          (delta example_matches
                             (spec_getBestSnapshot [] (JStr ''MyBook'') (JStr ''Assets'')
                                JUndefined) ?pq sale)))),
             notes' = length (delta example_matches
                    (spec_getBestSnapshot [] (JStr ''MyBook'') (JStr ''Assets'') JUndefined)
                    ?pq sale)\<rparr>, w)"
    by blast
  then have "\<exists>w. Book_balance exact_arith (spec_helpers scenario_dates)
      example_matches (spec_getBestSnapshot []) book60 2000
      [(''account'', JStr ''Assets'')] sale =
      Inr (\<lparr>balance = Finite (- (401 / 4)), notes' = 1\<rparr>, w)"
    unfolding assets_best sale_delta val by simp
  moreover from second have "Book_balance exact_arith (spec_helpers scenario_dates)
     example_matches (spec_getBestSnapshot [assets_snapshot]) book60 2000
     [(''account'', JStr ''Assets'')] sale =
     Inr (\<lparr>balance = snap_balance assets_snapshot, notes' = 0\<rparr>, None)"
    unfolding assets_best sale_delta by blast
  ultimately show ?thesis by (simp add: assets_snapshot_def)
qed

lemma lookup_snapshot_enabled:
  assumes "num_truthy (balanceSnapshotSec book)"
    and "lookup_snapshot best book q pq = Inr (acct, snap)"
  shows "snap = best (get_prop ''book'' pq) acct (get_prop ''meta'' pq)"
  using assms by (auto simp: lookup_snapshot_def split: sum.splits)

lemma refresh_needed:
  "needToDoBalanceSnapshot a book now snap \<longleftrightarrow>
     snap = None \<or> (\<exists>s. snap = Some s
        \<and> older_than a now (snap_createdAt s) (balanceSnapshotSec book))"
  by (cases snap) (simp_all add: needToDoBalanceSnapshot_def)

text \<open>
  The snapshot logic of a balance query with snapshots enabled, whose filter compiles: the
  snapshot used is the one the lookup of the best snapshot returns; with one, the live
  filter is the compiled filter with \<open>_id\<close> set to \<open>{$gt: snapshot.transaction}\<close>; a new
  snapshot is requested if and only if there was no snapshot or line 66 finds it older
  than \<open>balanceSnapshotSec\<close> seconds, the delta has at least one transaction, and
  \<open>toFixed\<close> accepts the precision of the book; the request carries \<open>expireInSec\<close> twice
  \<open>balanceSnapshotSec\<close>, the returned balance and the last transaction of the delta.
\<close>

lemma snapshot_requested_iff:
  assumes "num_truthy (balanceSnapshotSec book)"
    and "parseQuery h q book = Inr pq"
    and "lookup_snapshot best book q pq = Inr (acct, snap)"
  shows "snap = best (get_prop ''book'' pq) acct (get_prop ''meta'' pq)
    \<and> (\<forall>s. snap = Some s \<longrightarrow>
          live_filter snap pq =
            set_prop ''_id'' (JObj [(''$gt'', JObjectId (snap_transaction s))]) pq)
    \<and> (snap = None \<longrightarrow> live_filter snap pq = pq)
    \<and> ((\<exists>r req. Book_balance a h matches best book now q txs = Inr (r, Some req)) \<longleftrightarrow>
          (snap = None \<or> (\<exists>s. snap = Some s
              \<and> older_than a now (snap_createdAt s) (balanceSnapshotSec book)))
          \<and> delta matches snap pq txs \<noteq> []
          \<and> (\<exists>d. toFixed_digits (precision book) = Inr d))
    \<and> (\<forall>r req. Book_balance a h matches best book now q txs = Inr (r, Some req) \<longrightarrow>
          req_expireInSec req = js_times a (balanceSnapshotSec book) (Finite 2)
          \<and> req_balance req = balance r
          \<and> req_transaction req = tx_id (last (delta matches snap pq txs)))"
proof (intro conjI allI impI)
  show "snap = best (get_prop ''book'' pq) acct (get_prop ''meta'' pq)"
    by (rule lookup_snapshot_enabled [OF assms(1,3)])
next
  fix s
  assume "snap = Some s"
  then show "live_filter snap pq =
      set_prop ''_id'' (JObj [(''$gt'', JObjectId (snap_transaction s))]) pq"
    by (simp add: live_filter_def)
next
  assume "snap = None"
  then show "live_filter snap pq = pq" by (simp add: live_filter_def)
next
  show "(\<exists>r req. Book_balance a h matches best book now q txs = Inr (r, Some req)) \<longleftrightarrow>
          (snap = None \<or> (\<exists>s. snap = Some s
              \<and> older_than a now (snap_createdAt s) (balanceSnapshotSec book)))
          \<and> delta matches snap pq txs \<noteq> []
          \<and> (\<exists>d. toFixed_digits (precision book) = Inr d)"
  proof (cases "delta matches snap pq txs = []")
    case True
    from Book_balance_empty [OF assms(2,3) True, of a now] True show ?thesis by simp
  next
    case False
    show ?thesis
    proof (cases "toFixed_digits (precision book)")
      case (Inl e)
      from Book_balance_range_error [OF assms(2,3) False Inl, of a now] Inl show ?thesis
        by simp
    next
      case (Inr d)
      from Book_balance_delta [OF assms(2,3) False Inr, of a now]
      have "(\<exists>r req. Book_balance a h matches best book now q txs = Inr (r, Some req))
          \<longleftrightarrow> needToDoBalanceSnapshot a book now snap"
        by simp
      with False Inr refresh_needed [of a book now snap] show ?thesis by simp
    qed
  qed
next
  fix r req
  assume ret: "Book_balance a h matches best book now q txs = Inr (r, Some req)"
  have ne: "delta matches snap pq txs \<noteq> []"
  proof
    assume "delta matches snap pq txs = []"
    from Book_balance_empty [OF assms(2,3) this, of a now] ret show False by simp
  qed
  obtain d where d: "toFixed_digits (precision book) = Inr d"
  proof (cases "toFixed_digits (precision book)")
    case (Inl e)
    from Book_balance_range_error [OF assms(2,3) ne Inl, of a now] ret show ?thesis by simp
  next
    case (Inr d)
    then show ?thesis by (rule that)
  qed
  from Book_balance_delta [OF assms(2,3) ne d, of a now] ret
  show "req_expireInSec req = js_times a (balanceSnapshotSec book) (Finite 2)"
    and "req_balance req = balance r"
    and "req_transaction req = tx_id (last (delta matches snap pq txs))"
    by (auto split: if_splits)
qed

text \<open>The snapshot scenario: the first query requests a snapshot that expires after 120
  seconds; with that snapshot, 1 second old, and one more posting no snapshot is
  requested; with the snapshot 99 seconds old, one is.\<close>

lemma snapshot_scenario:
  "Book_balance exact_arith (spec_helpers scenario_dates) example_matches
     (spec_getBestSnapshot []) book60 2000 [(''account'', JStr ''Assets'')] sale =
   Inr (\<lparr>balance = Finite (- (401 / 4)), notes' = 1\<rparr>,
        Some \<lparr>req_book = ''MyBook'', req_account = JStr ''Assets'', req_meta = JUndefined,
              req_transaction = 1, req_timestamp = 10, req_balance = Finite (- (401 / 4)),
              req_expireInSec = Finite 120\<rparr>)"
  "Book_balance exact_arith (spec_helpers scenario_dates) example_matches
     (spec_getBestSnapshot [assets_snapshot]) book60 2000 [(''account'', JStr ''Assets'')]
     (sale @ [posting 3 20 [''Assets''] 5 0]) =
   Inr (\<lparr>balance = Finite (- (421 / 4)), notes' = 1\<rparr>, None)"
  "Book_balance exact_arith (spec_helpers scenario_dates) example_matches
     (spec_getBestSnapshot [assets_snapshot]) book60 100000 [(''account'', JStr ''Assets'')]
     (sale @ [posting 3 20 [''Assets''] 5 0]) =
   Inr (\<lparr>balance = Finite (- (421 / 4)), notes' = 1\<rparr>,
        Some \<lparr>req_book = ''MyBook'', req_account = JStr ''Assets'', req_meta = JUndefined,
              req_transaction = 3, req_timestamp = 20, req_balance = Finite (- (421 / 4)),
              req_expireInSec = Finite 120\<rparr>)"
  by (simp_all add: balance_simps compile_simps example_simps get_prop_set_prop Let_def)

text \<open>An account given as a list is joined with commas for the key of the snapshot.\<close>

lemma joined_account:
  "accountForBalanceSnapshot (JArr [JStr ''Assets'', JStr ''Income'']) =
     Inr (JStr ''Assets,Income'')"
  by (simp add: accountForBalanceSnapshot_def)

text \<open>
  Claim C3 says that a balance query with snapshots enabled writes a new snapshot when a
  refresh was needed and the delta has a transaction. The constructor accepts a precision
  of 101; the query for Assets on that book finds no snapshot, so that a refresh is
  needed, and one transaction in the delta, and it throws the RangeError of
  \<open>toFixed(101)\<close> on line 99, before the request of line 102: no snapshot is written,
  whatever the arithmetic and the time.
\<close>

theorem snapshot_not_written_precision_101:
  "Book_constructor (JStr ''MyBook'')
     \<lparr>opt_precision = JNum (Finite 101), opt_maxAccountPath = JUndefined,
      opt_balanceSnapshotSec = JNum (Finite 60)\<rparr> = Inr book101
   \<and> spec_getBestSnapshot [] (JStr ''MyBook'') (JStr ''Assets'') JUndefined = None
   \<and> delta example_matches None
       [(''book'', JStr ''MyBook''), (''accounts'', JStr ''Assets'')] sale =
     [posting 1 10 [''Assets'', ''Assets:Cash''] (25663 / 256) 0]
   \<and> Book_balance a (spec_helpers scenario_dates) example_matches (spec_getBestSnapshot [])
       book101 now [(''account'', JStr ''Assets'')] sale = Inl RangeError"
proof -
  have c: "Book_constructor (JStr ''MyBook'')
     \<lparr>opt_precision = JNum (Finite 101), opt_maxAccountPath = JUndefined,
      opt_balanceSnapshotSec = JNum (Finite 60)\<rparr> = Inr book101"
    by (simp add: Book_constructor_def invalid_name_def trim_def is_whitespace_def
        or_default_def invalid_count_def invalid_snapshot_sec_def book101_def)
  have pq: "parseQuery (spec_helpers scenario_dates) [(''account'', JStr ''Assets'')] book101 =
      Inr [(''book'', JStr ''MyBook''), (''accounts'', JStr ''Assets'')]"
    by (simp add: compile_simps book101_def)
  have lk: "lookup_snapshot (spec_getBestSnapshot []) book101 [(''account'', JStr ''Assets'')]
      [(''book'', JStr ''MyBook''), (''accounts'', JStr ''Assets'')] = Inr (JStr ''Assets'', None)"
    by (simp add: lookup_snapshot_def accountForBalanceSnapshot_def book101_def get_prop_def
        spec_getBestSnapshot_def)
  have d: "delta example_matches None
       [(''book'', JStr ''MyBook''), (''accounts'', JStr ''Assets'')] sale \<noteq> []"
    by (simp add: sale_delta)
  have e: "toFixed_digits (precision book101) = Inl RangeError"
    by (simp add: book101_def)
  from Book_balance_range_error [OF pq lk d e, of a now] c sale_delta(1) assets_best(2)
  show ?thesis by simp
qed

end
